theory Spec2Isabelle
  imports Complex_Main "HOL-Library.Sublist"
begin

section \<open>Python strings\<close>

text \<open>
  A Python \<open>str\<close> is a sequence of Unicode code points, and \<open>len\<close>, slicing and the
  search methods count code points. A string is therefore modelled as the list of its
  code points; the Korean literals of the source are written with their code points.
\<close>

type_synonym pystr = "nat list"

definition ascii :: "string \<Rightarrow> pystr" where
  "ascii s = map of_char s"

text \<open>The characters for which \<open>str.isspace\<close> holds (the ones \<open>str.strip()\<close> removes).\<close>

definition py_isspace :: "nat \<Rightarrow> bool" where
  "py_isspace c \<longleftrightarrow>
     (9 \<le> c \<and> c \<le> 13) \<or> (28 \<le> c \<and> c \<le> 32) \<or> c = 133 \<or> c = 160 \<or> c = 5760 \<or>
     (8192 \<le> c \<and> c \<le> 8202) \<or> c = 8232 \<or> c = 8233 \<or> c = 8239 \<or> c = 8287 \<or> c = 12288"

definition py_lstrip :: "pystr \<Rightarrow> pystr" where
  "py_lstrip s = dropWhile py_isspace s"

definition py_rstrip :: "pystr \<Rightarrow> pystr" where
  "py_rstrip s = rev (dropWhile py_isspace (rev s))"

definition py_strip :: "pystr \<Rightarrow> pystr" where
  "py_strip s = py_rstrip (py_lstrip s)"

text \<open>\<open>sub in s\<close>: \<open>sub\<close> occurs in \<open>s\<close> as a contiguous run.\<close>

definition py_in :: "pystr \<Rightarrow> pystr \<Rightarrow> bool" where
  "py_in sub s = sublist sub s"

text \<open>
  \<open>s.split(sep)\<close>: cut at every occurrence of \<open>sep\<close>, found from the left and not
  overlapping. The separator is a non-empty literal at every call site of the source
  (Python raises ValueError on an empty one, which no call site can reach).
\<close>

fun py_split :: "pystr \<Rightarrow> pystr \<Rightarrow> pystr list" where
  "py_split sep [] = [[]]"
| "py_split sep (c # cs) =
     (if prefix sep (c # cs) then [] # py_split sep (drop (length sep - 1) cs)
      else (case py_split sep cs of
              [] \<Rightarrow> [[c]]
            | p # ps \<Rightarrow> (c # p) # ps))"

text \<open>\<open>s.split(sep, maxsplit)\<close>: at most \<open>maxsplit\<close> cuts, the rest is left whole.\<close>

fun py_split_max :: "pystr \<Rightarrow> nat \<Rightarrow> pystr \<Rightarrow> pystr list" where
  "py_split_max sep 0 s = [s]"
| "py_split_max sep (Suc k) [] = [[]]"
| "py_split_max sep (Suc k) (c # cs) =
     (if prefix sep (c # cs) then [] # py_split_max sep k (drop (length sep - 1) cs)
      else (case py_split_max sep (Suc k) cs of
              [] \<Rightarrow> [[c]]
            | p # ps \<Rightarrow> (c # p) # ps))"

text \<open>\<open>s.replace(old, new)\<close> for a non-empty \<open>old\<close> (a literal at every call site).\<close>

fun py_replace :: "pystr \<Rightarrow> pystr \<Rightarrow> pystr \<Rightarrow> pystr" where
  "py_replace old new [] = []"
| "py_replace old new (c # cs) =
     (if prefix old (c # cs) then new @ py_replace old new (drop (length old - 1) cs)
      else c # py_replace old new cs)"

text \<open>\<open>sep.join(xs)\<close>.\<close>

fun py_join :: "pystr \<Rightarrow> pystr list \<Rightarrow> pystr" where
  "py_join sep [] = []"
| "py_join sep [x] = x"
| "py_join sep (x # y # ys) = x @ sep @ py_join sep (y # ys)"

section \<open>Body and attachment segmentation\<close>

text \<open>The marker token \<open>=== <attachment>:\<close> with the Korean word for "attachment" (U+CCA8 U+BD80 U+D30C U+C77C).\<close>

definition marker_token :: pystr where
  "marker_token = [61, 61, 61, 32, 52392, 48512, 54028, 51068, 58]"

text \<open>The sequence on which the summarizer splits: two newlines, then the marker token.\<close>

definition split_seq :: pystr where
  "split_seq = [10, 10] @ marker_token"

subsection \<open>Encoding (\<open>NaverMailParser.parse_email_body_and_attachments\<close>)\<close>

text \<open>
  The f-string appended to \<open>attachment_texts\<close> for an attachment whose record has an
  extracted text: two newlines, the marker token, a space, the filename, \<open> ===\<close>, a
  newline, the extracted text.
\<close>

definition attachment_block :: "pystr \<Rightarrow> pystr \<Rightarrow> pystr" where
  "attachment_block fname extracted =
     [10, 10] @ marker_token @ [32] @ fname @ [32, 61, 61, 61, 10] @ extracted"

text \<open>
  The last step of the parser: the stripped body, followed by the blocks joined with a
  newline when there is at least one block.
\<close>

definition combine_text :: "pystr \<Rightarrow> pystr list \<Rightarrow> pystr" where
  "combine_text body_text attachment_texts =
     (if attachment_texts \<noteq> [] then py_strip body_text @ py_join [10] attachment_texts
      else py_strip body_text)"

definition encode :: "pystr \<Rightarrow> (pystr \<times> pystr) list \<Rightarrow> pystr" where
  "encode body_text atts =
     combine_text body_text (map (\<lambda>(fname, extracted). attachment_block fname extracted) atts)"

subsection \<open>Segmentation (the first step of \<open>TextSummarizer.get_email_body_and_attachments_separately\<close>)\<close>

record attachment_text =
  at_index :: nat
  at_filename :: pystr
  at_extracted_text :: pystr

text \<open>
  One segment after a split point: the first line is the header, from which the
  filename is taken by stripping, deleting every \<open>===\<close> and stripping again; the rest,
  stripped, is the extracted text.
\<close>

definition parse_attachment_part :: "nat \<Rightarrow> pystr \<Rightarrow> attachment_text" where
  "parse_attachment_part idx part =
     (case py_split_max [10] 1 part of
        [] \<Rightarrow> \<lparr>at_index = idx, at_filename = [], at_extracted_text = []\<rparr>
      | l0 # ls \<Rightarrow>
          \<lparr>at_index = idx,
           at_filename = py_strip (py_replace [61, 61, 61] [] (py_strip l0)),
           at_extracted_text = (case ls of [] \<Rightarrow> [] | l1 # _ \<Rightarrow> py_strip l1)\<rparr>)"

text \<open>The loop \<open>for idx, part in enumerate(parts[1:], 1)\<close>.\<close>

fun parse_attachment_parts :: "nat \<Rightarrow> pystr list \<Rightarrow> attachment_text list" where
  "parse_attachment_parts idx [] = []"
| "parse_attachment_parts idx (p # ps) =
     parse_attachment_part idx p # parse_attachment_parts (Suc idx) ps"

text \<open>
  The segmentation of the body string, the first step of the method. The merge of the
  attachment metadata that follows it in the source is \<open>merge_metadata\<close>, and the
  method as a whole is \<open>get_email_body_and_attachments_separately\<close>, both further down.
\<close>

definition decode :: "pystr \<Rightarrow> pystr \<times> attachment_text list" where
  "decode body_text =
     (if py_in marker_token body_text then
        (case py_split split_seq body_text of
           [] \<Rightarrow> (body_text, [])
         | p0 # ps \<Rightarrow> (py_strip p0, parse_attachment_parts 1 ps))
      else (body_text, []))"

subsection \<open>Well-formed attachments and the expected decoding\<close>

text \<open>
  An attachment (filename, extracted text) that the decoder can recover: the filename has
  no surrounding whitespace, no \<open>===\<close> and no newline, and the extracted text does not
  contain the marker token.
\<close>

definition wf_attachment :: "pystr \<times> pystr \<Rightarrow> bool" where
  "wf_attachment a \<longleftrightarrow>
     py_strip (fst a) = fst a \<and> \<not> py_in [61, 61, 61] (fst a) \<and> 10 \<notin> set (fst a)
     \<and> \<not> py_in marker_token (snd a)"

text \<open>
  What follows the split sequence in an attachment's block, the segments the split is
  expected to give, and the records expected from them.
\<close>

definition header_and_text :: "pystr \<times> pystr \<Rightarrow> pystr" where
  "header_and_text a = 32 # fst a @ [32, 61, 61, 61, 10] @ snd a"

fun segments :: "(pystr \<times> pystr) list \<Rightarrow> pystr list" where
  "segments [] = []"
| "segments [a] = [header_and_text a]"
| "segments (a # b # bs) = (header_and_text a @ [10]) # segments (b # bs)"

fun records_from :: "nat \<Rightarrow> (pystr \<times> pystr) list \<Rightarrow> attachment_text list" where
  "records_from idx [] = []"
| "records_from idx (a # as) =
     \<lparr>at_index = idx, at_filename = fst a, at_extracted_text = py_strip (snd a)\<rparr>
       # records_from (Suc idx) as"


section \<open>Chunking by token budget (\<open>TextSummarizer.split_text_by_tokens\<close>)\<close>

text \<open>
  The tokenizer is an external library: \<open>count_tokens\<close> is a parameter, the number of
  tokens of a string. The loop over the sentences carries the list of finished chunks and
  the chunk being accumulated.
\<close>

fun chunk_loop :: "(pystr \<Rightarrow> nat) \<Rightarrow> int \<Rightarrow> pystr list \<Rightarrow> pystr list \<Rightarrow> pystr \<Rightarrow> pystr list \<times> pystr" where
  "chunk_loop count_tokens max_chunk_tokens [] chunks current_chunk = (chunks, current_chunk)"
| "chunk_loop count_tokens max_chunk_tokens (sentence # rest) chunks current_chunk =
     (let test_chunk = current_chunk @ sentence @ [46, 32] in
      if int (count_tokens test_chunk) > max_chunk_tokens then
        chunk_loop count_tokens max_chunk_tokens rest
          (if current_chunk \<noteq> [] then chunks @ [py_strip current_chunk] else chunks)
          (sentence @ [46, 32])
      else chunk_loop count_tokens max_chunk_tokens rest chunks test_chunk)"

definition split_text_by_tokens :: "(pystr \<Rightarrow> nat) \<Rightarrow> pystr \<Rightarrow> int \<Rightarrow> pystr list" where
  "split_text_by_tokens count_tokens text max_chunk_tokens =
     (case chunk_loop count_tokens max_chunk_tokens (py_split [46, 32] text) [] [] of
        (chunks, current_chunk) \<Rightarrow>
          if current_chunk \<noteq> [] then chunks @ [py_strip current_chunk] else chunks)"

text \<open>
  The same loop keeping each accumulated chunk as it is when it is closed, before
  \<open>strip()\<close>: the pieces whose token counts the loop has compared with the budget.
\<close>

fun piece_loop :: "(pystr \<Rightarrow> nat) \<Rightarrow> int \<Rightarrow> pystr list \<Rightarrow> pystr list \<Rightarrow> pystr \<Rightarrow> pystr list \<times> pystr" where
  "piece_loop count_tokens max_chunk_tokens [] pieces current_chunk = (pieces, current_chunk)"
| "piece_loop count_tokens max_chunk_tokens (sentence # rest) pieces current_chunk =
     (let test_chunk = current_chunk @ sentence @ [46, 32] in
      if int (count_tokens test_chunk) > max_chunk_tokens then
        piece_loop count_tokens max_chunk_tokens rest
          (if current_chunk \<noteq> [] then pieces @ [current_chunk] else pieces)
          (sentence @ [46, 32])
      else piece_loop count_tokens max_chunk_tokens rest pieces test_chunk)"

definition untrimmed_chunks :: "(pystr \<Rightarrow> nat) \<Rightarrow> pystr \<Rightarrow> int \<Rightarrow> pystr list" where
  "untrimmed_chunks count_tokens text max_chunk_tokens =
     (case piece_loop count_tokens max_chunk_tokens (py_split [46, 32] text) [] [] of
        (pieces, current_chunk) \<Rightarrow>
          if current_chunk \<noteq> [] then pieces @ [current_chunk] else pieces)"

section \<open>Filenames (\<open>NaverMailParser.sanitize_filename\<close>)\<close>

text \<open>\<open>s.rfind(c)\<close> for a single character: the last index of \<open>c\<close>, or \<open>-1\<close>.\<close>

fun last_index :: "nat \<Rightarrow> pystr \<Rightarrow> nat option" where
  "last_index c [] = None"
| "last_index c (x # xs) =
     (case last_index c xs of
        Some i \<Rightarrow> Some (Suc i)
      | None \<Rightarrow> if x = c then Some 0 else None)"

definition py_rfind :: "nat \<Rightarrow> pystr \<Rightarrow> int" where
  "py_rfind c s = (case last_index c s of None \<Rightarrow> - 1 | Some i \<Rightarrow> int i)"

text \<open>The slice \<open>s[:k]\<close>: a negative \<open>k\<close> counts from the end.\<close>

definition py_slice_to :: "pystr \<Rightarrow> int \<Rightarrow> pystr" where
  "py_slice_to s k = (if 0 \<le> k then take (nat k) s else take (length s - nat (- k)) s)"

text \<open>
  \<open>os.path.splitext\<close> (POSIX): the extension starts at the last dot, when that dot comes
  after the last \<open>/\<close> and some character between that \<open>/\<close> and the dot is not a dot
  (leading dots of the last component do not start an extension).
\<close>

definition splitext :: "pystr \<Rightarrow> pystr \<times> pystr" where
  "splitext p =
     (let sepIndex = py_rfind 47 p; dotIndex = py_rfind 46 p in
      if dotIndex > sepIndex
         \<and> list_ex (\<lambda>c. c \<noteq> 46) (take (nat (dotIndex - (sepIndex + 1))) (drop (nat (sepIndex + 1)) p))
      then (take (nat dotIndex) p, drop (nat dotIndex) p)
      else (p, []))"

text \<open>The character class of the regular expression: \<open>< > : " / \ | ? *\<close>.\<close>

definition dangerous_chars :: "nat list" where
  "dangerous_chars = [60, 62, 58, 34, 47, 92, 124, 63, 42]"

definition re_sub_dangerous :: "pystr \<Rightarrow> pystr" where
  "re_sub_dangerous filename = map (\<lambda>c. if c \<in> set dangerous_chars then 95 else c) filename"

definition sanitize_filename :: "pystr \<Rightarrow> pystr" where
  "sanitize_filename filename =
     (let filename1 = re_sub_dangerous filename;
          filename2 = py_replace [32] [95] filename1
      in if length filename2 > 200 then
           (case splitext filename2 of
              (name, ext) \<Rightarrow> py_slice_to name (200 - int (length ext)) @ ext)
         else filename2)"

section \<open>Exceptions, files and external libraries\<close>

text \<open>
  An exception is a value; \<open>str(e)\<close> is its message. A computation that can raise has
  the type \<open>py_exn + 'a\<close>, and \<open>try: ... except Exception as e: ...\<close> is \<open>try_except\<close>.
\<close>

datatype py_exn =
    ZeroDivisionError
  | UnicodeDecodeError pystr
  | OSError pystr
  | PyException pystr

fun exn_str :: "py_exn \<Rightarrow> pystr" where
  "exn_str ZeroDivisionError = ascii ''division by zero''"
| "exn_str (UnicodeDecodeError m) = m"
| "exn_str (OSError m) = m"
| "exn_str (PyException m) = m"

definition try_except :: "py_exn + 'a \<Rightarrow> (py_exn \<Rightarrow> py_exn + 'a) \<Rightarrow> py_exn + 'a" where
  "try_except body handler = (case body of Inl e \<Rightarrow> handler e | Inr v \<Rightarrow> Inr v)"

text \<open>
  The file system: a path (as \<open>str(path)\<close> prints it) is absent, a directory, or a file
  with its bytes.
\<close>

type_synonym bytes = "nat list"

datatype node = Dir | File bytes

type_synonym filesystem = "pystr \<Rightarrow> node option"

text \<open>
  The node a path leads to. A path whose last component is \<open>..\<close> leads to a directory (the
  parent) when the path before that component is a directory, and nowhere otherwise; any
  other path is looked up as it is written.
\<close>

definition node_at :: "filesystem \<Rightarrow> pystr \<Rightarrow> node option" where
  "node_at fs p =
     (if suffix (ascii ''/..'') p then
        (case fs (take (length p - 3) p) of
           Some Dir \<Rightarrow> Some Dir
         | _ \<Rightarrow> None)
      else fs p)"

definition path_exists :: "filesystem \<Rightarrow> pystr \<Rightarrow> bool" where
  "path_exists fs p \<longleftrightarrow> node_at fs p \<noteq> None"

text \<open>Opening a file for reading and reading all of it.\<close>

definition read_bytes :: "filesystem \<Rightarrow> pystr \<Rightarrow> py_exn + bytes" where
  "read_bytes fs p =
     (case fs p of
        None \<Rightarrow> Inl (OSError (ascii ''No such file or directory''))
      | Some Dir \<Rightarrow> Inl (OSError (ascii ''Is a directory''))
      | Some (File b) \<Rightarrow> Inr b)"

text \<open>\<open>str(n)\<close> for a natural number: its decimal digits.\<close>

fun str_nat :: "nat \<Rightarrow> pystr" where
  "str_nat n = (if n < 10 then [48 + n] else str_nat (n div 10) @ [48 + n mod 10])"

declare str_nat.simps [simp del]

text \<open>
  \<open>s.lower()\<close> on the ASCII letters; the case mappings of other scripts are not modelled
  (every extension the source compares with is ASCII).
\<close>

definition py_lower :: "pystr \<Rightarrow> pystr" where
  "py_lower s = map (\<lambda>c. if 65 \<le> c \<and> c \<le> 90 then c + 32 else c) s"

text \<open>
  The document libraries and the codecs are external. Each library is present or not (the
  guarded imports at the top of the module) and, given the bytes of a file, either raises
  or returns what the source reads from it: the text of each PDF page, the text of each
  paragraph, for each sheet its name and its rows of cells (a cell is \<open>None\<close> or its
  \<open>str\<close>), for each slide the text of each shape (\<open>None\<close> for a shape without text).
  \<open>decode_text enc b\<close> decodes bytes with the named codec.
\<close>

record extract_env =
  has_PyPDF2 :: bool
  has_docx :: bool
  has_openpyxl :: bool
  has_pptx :: bool
  pdf_page_texts :: "bytes \<Rightarrow> py_exn + pystr list"
  docx_paragraphs :: "bytes \<Rightarrow> py_exn + pystr list"
  xlsx_sheets :: "bytes \<Rightarrow> py_exn + (pystr \<times> pystr option list list) list"
  pptx_slides :: "bytes \<Rightarrow> py_exn + pystr option list list"
  decode_text :: "pystr \<Rightarrow> bytes \<Rightarrow> py_exn + pystr"

section \<open>Text extraction (\<open>NaverMailParser.extract_text_from_file\<close>)\<close>

subsection \<open>The bodies of the inner \<open>try\<close> blocks\<close>

definition extract_pdf :: "extract_env \<Rightarrow> filesystem \<Rightarrow> pystr \<Rightarrow> py_exn + pystr" where
  "extract_pdf env fs filepath =
     (case read_bytes fs filepath of
        Inl e \<Rightarrow> Inl e
      | Inr b \<Rightarrow>
          (case pdf_page_texts env b of
             Inl e \<Rightarrow> Inl e
           | Inr text_parts \<Rightarrow> Inr (py_join [10] text_parts)))"

definition extract_word :: "extract_env \<Rightarrow> filesystem \<Rightarrow> pystr \<Rightarrow> py_exn + pystr" where
  "extract_word env fs filepath =
     (case read_bytes fs filepath of
        Inl e \<Rightarrow> Inl e
      | Inr b \<Rightarrow>
          (case docx_paragraphs env b of
             Inl e \<Rightarrow> Inl e
           | Inr text_parts \<Rightarrow> Inr (py_join [10] text_parts)))"

text \<open>One sheet: the \<open>[Sheet: name]\<close> line, then the tab-joined text of each row that is not blank.\<close>

definition row_text :: "pystr option list \<Rightarrow> pystr" where
  "row_text row = py_join [9] (map (\<lambda>cell. case cell of None \<Rightarrow> [] | Some s \<Rightarrow> s) row)"

definition sheet_lines :: "pystr \<times> pystr option list list \<Rightarrow> pystr list" where
  "sheet_lines sheet =
     (ascii ''[Sheet: '' @ fst sheet @ ascii '']'')
       # filter (\<lambda>t. py_strip t \<noteq> []) (map row_text (snd sheet))"

definition extract_excel :: "extract_env \<Rightarrow> filesystem \<Rightarrow> pystr \<Rightarrow> py_exn + pystr" where
  "extract_excel env fs filepath =
     (case read_bytes fs filepath of
        Inl e \<Rightarrow> Inl e
      | Inr b \<Rightarrow>
          (case xlsx_sheets env b of
             Inl e \<Rightarrow> Inl e
           | Inr sheets \<Rightarrow> Inr (py_join [10] (concat (map sheet_lines sheets)))))"

text \<open>The slides, numbered from 1: the \<open>[Slide n]\<close> line, then the text of each shape that has one.\<close>

fun slide_lines :: "nat \<Rightarrow> pystr option list list \<Rightarrow> pystr list" where
  "slide_lines slide_num [] = []"
| "slide_lines slide_num (shapes # rest) =
     (ascii ''[Slide '' @ str_nat slide_num @ ascii '']'')
       # (concat (map (\<lambda>shape. case shape of None \<Rightarrow> [] | Some t \<Rightarrow> [t]) shapes)
          @ slide_lines (Suc slide_num) rest)"

definition extract_powerpoint :: "extract_env \<Rightarrow> filesystem \<Rightarrow> pystr \<Rightarrow> py_exn + pystr" where
  "extract_powerpoint env fs filepath =
     (case read_bytes fs filepath of
        Inl e \<Rightarrow> Inl e
      | Inr b \<Rightarrow>
          (case pptx_slides env b of
             Inl e \<Rightarrow> Inl e
           | Inr slides \<Rightarrow> Inr (py_join [10] (slide_lines 1 slides))))"

text \<open>The marker returned when every encoding fails ("text file encoding failed").\<close>

definition encoding_failed_marker :: pystr where
  "encoding_failed_marker =
     ascii ''['' @ [53581, 49828, 53944] @ ascii '' '' @ [54028, 51068] @ ascii '' ''
       @ [51064, 53076, 46377] @ ascii '' '' @ [49892, 54056] @ ascii '']''"

text \<open>
  The loop over the encodings: the first successful read is returned, a
  UnicodeDecodeError moves on to the next encoding, any other exception leaves the loop.
\<close>

fun try_encodings :: "extract_env \<Rightarrow> filesystem \<Rightarrow> pystr \<Rightarrow> pystr list \<Rightarrow> py_exn + pystr" where
  "try_encodings env fs filepath [] = Inr encoding_failed_marker"
| "try_encodings env fs filepath (encoding # rest) =
     (case read_bytes fs filepath of
        Inl e \<Rightarrow> Inl e
      | Inr b \<Rightarrow>
          (case decode_text env encoding b of
             Inl (UnicodeDecodeError m) \<Rightarrow> try_encodings env fs filepath rest
           | Inl e \<Rightarrow> Inl e
           | Inr s \<Rightarrow> Inr s))"

definition text_encodings :: "pystr list" where
  "text_encodings = [ascii ''utf-8'', ascii ''euc-kr'', ascii ''cp949'', ascii ''latin-1'']"

definition extract_text_file :: "extract_env \<Rightarrow> filesystem \<Rightarrow> pystr \<Rightarrow> py_exn + pystr" where
  "extract_text_file env fs filepath = try_encodings env fs filepath text_encodings"

subsection \<open>The failure markers\<close>

text \<open>
  The prefixes of the markers: "[PDF text extraction failed: ", the same for Word, Excel and
  PowerPoint, "[text file read failed: " and "[file processing error: "; the end of the
  marker for an unsupported format, " format does not support text extraction]"; and
  the wording "not supported" inside it.
\<close>

definition extraction_failed :: pystr where
  "extraction_failed =
     ascii '' '' @ [53581, 49828, 53944] @ ascii '' '' @ [52628, 52636] @ ascii '' ''
       @ [49892, 54056] @ ascii '': ''"

definition pdf_failed_prefix :: pystr where
  "pdf_failed_prefix = ascii ''[PDF'' @ extraction_failed"

definition word_failed_prefix :: pystr where
  "word_failed_prefix = ascii ''[Word'' @ extraction_failed"

definition excel_failed_prefix :: pystr where
  "excel_failed_prefix = ascii ''[Excel'' @ extraction_failed"

definition powerpoint_failed_prefix :: pystr where
  "powerpoint_failed_prefix = ascii ''[PowerPoint'' @ extraction_failed"

definition text_read_failed_prefix :: pystr where
  "text_read_failed_prefix =
     ascii ''['' @ [53581, 49828, 53944] @ ascii '' '' @ [54028, 51068] @ ascii '' ''
       @ [51069, 44592] @ ascii '' '' @ [49892, 54056] @ ascii '': ''"

definition file_error_prefix :: pystr where
  "file_error_prefix =
     ascii ''['' @ [54028, 51068] @ ascii '' '' @ [52376, 47532] @ ascii '' ''
       @ [50724, 47448] @ ascii '': ''"

definition not_supported_wording :: pystr where
  "not_supported_wording = [51648, 50896, 54616, 51648] @ ascii '' '' @ [50506, 49845, 45768, 45796]"

definition unsupported_suffix :: pystr where
  "unsupported_suffix =
     ascii '' '' @ [54805, 49885, 51008] @ ascii '' '' @ [53581, 49828, 53944] @ ascii '' ''
       @ [52628, 52636, 51012] @ ascii '' '' @ not_supported_wording @ ascii '']''"

definition failure_marker :: "pystr \<Rightarrow> py_exn \<Rightarrow> pystr" where
  "failure_marker category_prefix e = category_prefix @ exn_str e @ ascii '']''"

subsection \<open>The dispatch on the lowercased extension\<close>

definition text_extensions :: "pystr list" where
  "text_extensions =
     [ascii ''.txt'', ascii ''.csv'', ascii ''.log'', ascii ''.md'', ascii ''.json'',
      ascii ''.xml'', ascii ''.html'', ascii ''.htm'']"

definition extract_text_from_file :: "extract_env \<Rightarrow> filesystem \<Rightarrow> pystr \<Rightarrow> py_exn + pystr" where
  "extract_text_from_file env fs filepath =
     try_except
       (let ext = py_lower (snd (splitext filepath)) in
        if ext = ascii ''.pdf'' \<and> has_PyPDF2 env then
          try_except (extract_pdf env fs filepath)
            (\<lambda>e. Inr (failure_marker pdf_failed_prefix e))
        else if ext \<in> set [ascii ''.docx'', ascii ''.doc''] \<and> has_docx env then
          try_except (extract_word env fs filepath)
            (\<lambda>e. Inr (failure_marker word_failed_prefix e))
        else if ext \<in> set [ascii ''.xlsx'', ascii ''.xls''] \<and> has_openpyxl env then
          try_except (extract_excel env fs filepath)
            (\<lambda>e. Inr (failure_marker excel_failed_prefix e))
        else if ext \<in> set [ascii ''.pptx'', ascii ''.ppt''] \<and> has_pptx env then
          try_except (extract_powerpoint env fs filepath)
            (\<lambda>e. Inr (failure_marker powerpoint_failed_prefix e))
        else if ext \<in> set text_extensions then
          try_except (extract_text_file env fs filepath)
            (\<lambda>e. Inr (failure_marker text_read_failed_prefix e))
        else Inr (ascii ''['' @ ext @ unsupported_suffix))
       (\<lambda>e. Inr (failure_marker file_error_prefix e))"

text \<open>A string in square brackets.\<close>

definition bracketed :: "pystr \<Rightarrow> bool" where
  "bracketed s \<longleftrightarrow> s \<noteq> [] \<and> hd s = 91 \<and> last s = 93"

text \<open>The extensions the dispatch can handle with the libraries that are present.\<close>

definition supported_extension :: "extract_env \<Rightarrow> pystr \<Rightarrow> bool" where
  "supported_extension env ext \<longleftrightarrow>
     (ext = ascii ''.pdf'' \<and> has_PyPDF2 env)
     \<or> (ext \<in> set [ascii ''.docx'', ascii ''.doc''] \<and> has_docx env)
     \<or> (ext \<in> set [ascii ''.xlsx'', ascii ''.xls''] \<and> has_openpyxl env)
     \<or> (ext \<in> set [ascii ''.pptx'', ascii ''.ppt''] \<and> has_pptx env)
     \<or> ext \<in> set text_extensions"

text \<open>
  For a supported extension, the branch the dispatch selects: the prefix of its failure
  marker and the body of its inner \<open>try\<close> block.
\<close>

definition selected_branch :: "extract_env \<Rightarrow> filesystem \<Rightarrow> pystr \<Rightarrow> pystr \<times> (py_exn + pystr)" where
  "selected_branch env fs filepath =
     (let ext = py_lower (snd (splitext filepath)) in
      if ext = ascii ''.pdf'' \<and> has_PyPDF2 env then
        (pdf_failed_prefix, extract_pdf env fs filepath)
      else if ext \<in> set [ascii ''.docx'', ascii ''.doc''] \<and> has_docx env then
        (word_failed_prefix, extract_word env fs filepath)
      else if ext \<in> set [ascii ''.xlsx'', ascii ''.xls''] \<and> has_openpyxl env then
        (excel_failed_prefix, extract_excel env fs filepath)
      else if ext \<in> set [ascii ''.pptx'', ascii ''.ppt''] \<and> has_pptx env then
        (powerpoint_failed_prefix, extract_powerpoint env fs filepath)
      else (text_read_failed_prefix, extract_text_file env fs filepath))"

definition category_prefixes :: "pystr list" where
  "category_prefixes =
     [pdf_failed_prefix, word_failed_prefix, excel_failed_prefix, powerpoint_failed_prefix,
      text_read_failed_prefix, file_error_prefix]"

text \<open>
  An example: only the PDF library is present, it rejects every file, and every codec
  rejects every file; the file system holds a PDF file and a text file.
\<close>

definition example_env :: extract_env where
  "example_env =
     \<lparr>has_PyPDF2 = True, has_docx = False, has_openpyxl = False, has_pptx = False,
      pdf_page_texts = (\<lambda>b. Inl (PyException (ascii ''EOF marker not found''))),
      docx_paragraphs = (\<lambda>b. Inr []),
      xlsx_sheets = (\<lambda>b. Inr []),
      pptx_slides = (\<lambda>b. Inr []),
      decode_text = (\<lambda>enc b. Inl (UnicodeDecodeError (ascii ''invalid start byte'')))\<rparr>"

definition example_fs :: filesystem where
  "example_fs = [ascii ''a.PDF'' \<mapsto> File [37, 80, 68, 70], ascii ''n.txt'' \<mapsto> File [255]]"

section \<open>Saving attachments (\<open>NaverMailParser.save_attachment\<close>)\<close>

text \<open>
  A MIME part as the parser reads it: the filename parameter (\<open>get_filename()\<close>), the
  decoded payload (\<open>get_payload(decode=True)\<close>), the content type, the
  Content-Disposition header as \<open>str\<close> prints it, and the payload as text (decoded with
  the declared charset, or UTF-8, errors ignored).
\<close>

record mime_part =
  part_filename :: "pystr option"
  part_payload :: "bytes option"
  part_content_type :: pystr
  part_content_disposition :: pystr
  part_text :: pystr

record attachment_info =
  ai_filename :: pystr
  ai_filepath :: pystr
  ai_size :: nat
  ai_content_type :: pystr
  ai_extracted_text :: "pystr option"

text \<open>
  What the parser takes from outside: the download directory, the document libraries,
  the decoding of MIME-encoded header words (which can raise), the conversion of HTML to
  text (which returns its input when the conversion fails), the UTF-8 encoder used when a
  text file is written, and the rendering of the metadata as JSON.
\<close>

record email_metadata =
  md_id :: pystr
  md_subject :: pystr
  md_sender :: pystr
  md_recipient :: pystr
  md_date :: pystr
  md_downloaded_at :: pystr
  md_has_html :: bool
  md_attachment_count :: nat

record parser_env =
  download_path :: pystr
  libraries :: extract_env
  decode_mime_words :: "pystr \<Rightarrow> py_exn + pystr"
  extract_text_from_html :: "pystr \<Rightarrow> pystr"
  utf8_encode :: "pystr \<Rightarrow> py_exn + bytes"
  json_dump :: "email_metadata \<Rightarrow> py_exn + bytes"
  now_isoformat :: pystr

text \<open>
  \<open>Path(folder) / name\<close> as \<open>str\<close> prints it, for a folder printed in normal form and a
  name without \<open>/\<close> (a sanitized name has none): an empty name and the name \<open>.\<close> add
  nothing, every other name (\<open>..\<close> too) is appended after a slash.
\<close>

definition path_join :: "pystr \<Rightarrow> pystr \<Rightarrow> pystr" where
  "path_join folder name =
     (if name = [] \<or> name = [46] then folder else folder @ [47] @ name)"

definition email_folder_path :: "parser_env \<Rightarrow> pystr \<Rightarrow> pystr" where
  "email_folder_path env email_id = path_join (download_path env) (ascii ''email_'' @ email_id)"

text \<open>
  \<open>folder.mkdir(exist_ok=True)\<close>: nothing to do for a directory, an error for a file of
  that name, and otherwise the directory is created when its parent is a directory.
\<close>

definition mkdir_exist_ok :: "filesystem \<Rightarrow> pystr \<Rightarrow> pystr \<Rightarrow> py_exn + filesystem" where
  "mkdir_exist_ok fs parent p =
     (case fs p of
        Some Dir \<Rightarrow> Inr fs
      | Some (File b) \<Rightarrow> Inl (OSError (ascii ''File exists''))
      | None \<Rightarrow>
          if fs parent = Some Dir then Inr (fs(p \<mapsto> Dir))
          else Inl (OSError (ascii ''No such file or directory'')))"

text \<open>
  The last component of a path (what follows its last slash), and the number of bytes of
  a string in UTF-8, the encoding of file names.
\<close>

definition path_name :: "pystr \<Rightarrow> pystr" where
  "path_name p = (case last_index 47 p of None \<Rightarrow> p | Some i \<Rightarrow> drop (Suc i) p)"

definition utf8_size :: "nat \<Rightarrow> nat" where
  "utf8_size c = (if c < 128 then 1 else if c < 2048 then 2 else if c < 65536 then 3 else 4)"

definition utf8_length :: "pystr \<Rightarrow> nat" where
  "utf8_length s = sum_list (map utf8_size s)"

text \<open>
  \<open>open(p, 'wb')\<close> (or \<open>'w'\<close>): creates the file or empties it. It raises when the last
  component is longer than the 255 bytes that the file system accepts for a name, when
  the path leads to a directory, and when its last component is \<open>..\<close>.
\<close>

definition name_max :: nat where
  "name_max = 255"

definition open_for_writing :: "filesystem \<Rightarrow> pystr \<Rightarrow> py_exn + filesystem" where
  "open_for_writing fs p =
     (if utf8_length (path_name p) > name_max then Inl (OSError (ascii ''File name too long''))
      else
        (case node_at fs p of
           Some Dir \<Rightarrow> Inl (OSError (ascii ''Is a directory''))
         | Some (File b) \<Rightarrow> Inr (fs(p \<mapsto> File []))
         | None \<Rightarrow>
             if suffix (ascii ''/..'') p then Inl (OSError (ascii ''No such file or directory''))
             else Inr (fs(p \<mapsto> File []))))"

text \<open>The candidate \<open>f"{name}_{counter}{ext}"\<close> of the collision loop.\<close>

definition numbered_path :: "pystr \<Rightarrow> nat \<Rightarrow> pystr" where
  "numbered_path original_filepath counter =
     (case splitext original_filepath of
        (name, ext) \<Rightarrow> name @ [95] @ str_nat counter @ ext)"

text \<open>
  The loop \<open>while filepath.exists()\<close>: the result is \<open>None\<close> when the loop never ends,
  and the free path it stops at otherwise.
\<close>

partial_function (option) free_path :: "filesystem \<Rightarrow> pystr \<Rightarrow> nat \<Rightarrow> pystr \<Rightarrow> pystr option" where
  "free_path fs original_filepath counter filepath =
     (if path_exists fs filepath
      then free_path fs original_filepath (Suc counter) (numbered_path original_filepath counter)
      else Some filepath)"

text \<open>
  The result is the file system after the call and the attachment record, or \<open>None\<close> in
  place of the record where the source returns \<open>None\<close> (no filename, or an exception,
  which the source prints and swallows). Writing a missing payload raises after the file
  has been created empty. The whole result is \<open>None\<close> when the collision loop never ends.
\<close>

definition save_attachment ::
  "parser_env \<Rightarrow> filesystem \<Rightarrow> mime_part \<Rightarrow> pystr \<Rightarrow> bool \<Rightarrow> (filesystem \<times> attachment_info option) option" where
  "save_attachment env fs part email_id extract_text =
     (case part_filename part of
        None \<Rightarrow> Some (fs, None)
      | Some raw_filename \<Rightarrow>
          if raw_filename = [] then Some (fs, None)
          else
            (case decode_mime_words env raw_filename of
               Inl e \<Rightarrow> Some (fs, None)
             | Inr decoded \<Rightarrow>
                 (let filename = sanitize_filename decoded;
                      email_folder = email_folder_path env email_id
                  in case mkdir_exist_ok fs (download_path env) email_folder of
                       Inl e \<Rightarrow> Some (fs, None)
                     | Inr fs1 \<Rightarrow>
                         (case free_path fs1 (path_join email_folder filename) 1
                                 (path_join email_folder filename) of
                            None \<Rightarrow> None
                          | Some filepath \<Rightarrow>
                              (case open_for_writing fs1 filepath of
                                 Inl e \<Rightarrow> Some (fs1, None)
                               | Inr fs2 \<Rightarrow>
                                   (case part_payload part of
                                      None \<Rightarrow> Some (fs2, None)
                                    | Some payload \<Rightarrow>
                                        (let fs3 = fs2(filepath \<mapsto> File payload);
                                             attachment_info =
                                               \<lparr>ai_filename = filename,
                                                ai_filepath = filepath,
                                                ai_size = length payload,
                                                ai_content_type = part_content_type part,
                                                ai_extracted_text = None\<rparr>
                                         in if extract_text then
                                              (case extract_text_from_file (libraries env) fs3 filepath of
                                                 Inl e \<Rightarrow> Some (fs3, None)
                                               | Inr extracted_text \<Rightarrow>
                                                   Some (fs3, Some (attachment_info
                                                     \<lparr>ai_extracted_text := Some extracted_text\<rparr>)))
                                            else Some (fs3, Some attachment_info))))))))"

text \<open>
  An example: headers are taken as they are, the download directory exists and is empty,
  and two attachment parts are named \<open>my report.txt\<close> and \<open>my_report.txt\<close>.
\<close>

definition example_parser_env :: parser_env where
  "example_parser_env =
     \<lparr>download_path = ascii ''downloads'',
      libraries = example_env,
      decode_mime_words = (\<lambda>s. Inr s),
      extract_text_from_html = (\<lambda>s. s),
      utf8_encode = (\<lambda>s. Inr s),
      json_dump = (\<lambda>m. Inr []),
      now_isoformat = ascii ''2024-01-01T00:00:00''\<rparr>"

definition example_attachment_part :: "pystr \<Rightarrow> bytes \<Rightarrow> mime_part" where
  "example_attachment_part name payload =
     \<lparr>part_filename = Some name,
      part_payload = Some payload,
      part_content_type = ascii ''text/plain'',
      part_content_disposition = ascii ''attachment; filename='' @ name,
      part_text = payload\<rparr>"

definition example_downloads :: filesystem where
  "example_downloads = [ascii ''downloads'' \<mapsto> Dir]"

section \<open>Parsing a message (\<open>NaverMailParser.parse_email_body_and_attachments\<close>)\<close>

text \<open>
  The body of a message: for a multipart message the parts that \<open>msg.walk()\<close> yields, in
  order; otherwise the message itself as its only part.
\<close>

datatype message_body = Multipart "mime_part list" | Singlepart mime_part

text \<open>The variables of the loop, and the file system.\<close>

record parse_state =
  ps_fs :: filesystem
  ps_body_text :: pystr
  ps_body_html :: pystr
  ps_attachments :: "attachment_info list"
  ps_attachment_texts :: "pystr list"

record parsed_content =
  pc_body_text :: pystr
  pc_body_html :: pystr
  pc_attachments :: "attachment_info list"
  pc_has_extracted_attachments :: bool

text \<open>\<open>if payload:\<close> holds for a payload that is present and not empty.\<close>

definition payload_present :: "mime_part \<Rightarrow> bool" where
  "payload_present part = (case part_payload part of None \<Rightarrow> False | Some b \<Rightarrow> b \<noteq> [])"

definition is_attachment_part :: "mime_part \<Rightarrow> bool" where
  "is_attachment_part part = py_in (ascii ''attachment'') (part_content_disposition part)"

text \<open>One round of the loop over the parts.\<close>

definition handle_part :: "parser_env \<Rightarrow> pystr \<Rightarrow> bool \<Rightarrow> parse_state \<Rightarrow> mime_part \<Rightarrow> parse_state option" where
  "handle_part env email_id extract_attachment_text st part =
     (if is_attachment_part part then
        (case save_attachment env (ps_fs st) part email_id extract_attachment_text of
           None \<Rightarrow> None
         | Some (fs', None) \<Rightarrow> Some (st\<lparr>ps_fs := fs'\<rparr>)
         | Some (fs', Some attachment_info) \<Rightarrow>
             Some (st\<lparr>ps_fs := fs',
                      ps_attachments := ps_attachments st @ [attachment_info],
                      ps_attachment_texts :=
                        (case ai_extracted_text attachment_info of
                           Some extracted \<Rightarrow>
                             if extract_attachment_text
                             then ps_attachment_texts st
                                    @ [attachment_block (ai_filename attachment_info) extracted]
                             else ps_attachment_texts st
                         | None \<Rightarrow> ps_attachment_texts st)\<rparr>))
      else if part_content_type part = ascii ''text/plain'' then
        Some (if payload_present part
              then st\<lparr>ps_body_text := ps_body_text st @ part_text part\<rparr> else st)
      else if part_content_type part = ascii ''text/html'' then
        Some (if payload_present part
              then st\<lparr>ps_body_html := ps_body_html st @ part_text part\<rparr> else st)
      else Some st)"

fun walk_parts :: "parser_env \<Rightarrow> pystr \<Rightarrow> bool \<Rightarrow> parse_state \<Rightarrow> mime_part list \<Rightarrow> parse_state option" where
  "walk_parts env email_id extract_attachment_text st [] = Some st"
| "walk_parts env email_id extract_attachment_text st (part # rest) =
     (case handle_part env email_id extract_attachment_text st part of
        None \<Rightarrow> None
      | Some st' \<Rightarrow> walk_parts env email_id extract_attachment_text st' rest)"

text \<open>
  After the loop: the body derived from the HTML when there is only HTML, the combined
  text, and the returned record.
\<close>

definition finish_parse :: "parser_env \<Rightarrow> parse_state \<Rightarrow> parsed_content" where
  "finish_parse env st =
     (let body_text =
            (if ps_body_html st \<noteq> [] \<and> ps_body_text st = []
             then extract_text_from_html env (ps_body_html st)
             else ps_body_text st)
      in \<lparr>pc_body_text = combine_text body_text (ps_attachment_texts st),
          pc_body_html = py_strip (ps_body_html st),
          pc_attachments = ps_attachments st,
          pc_has_extracted_attachments = (length (ps_attachment_texts st) > 0)\<rparr>)"

definition initial_state :: "filesystem \<Rightarrow> parse_state" where
  "initial_state fs =
     \<lparr>ps_fs = fs, ps_body_text = [], ps_body_html = [], ps_attachments = [],
      ps_attachment_texts = []\<rparr>"

definition parse_email_body_and_attachments ::
  "parser_env \<Rightarrow> filesystem \<Rightarrow> message_body \<Rightarrow> pystr \<Rightarrow> bool \<Rightarrow> (filesystem \<times> parsed_content) option" where
  "parse_email_body_and_attachments env fs msg email_id extract_attachment_text =
     (case msg of
        Multipart parts \<Rightarrow>
          (case walk_parts env email_id extract_attachment_text (initial_state fs) parts of
             None \<Rightarrow> None
           | Some st \<Rightarrow> Some (ps_fs st, finish_parse env st))
      | Singlepart part \<Rightarrow>
          Some (fs, finish_parse env
            (if payload_present part then
               (if part_content_type part = ascii ''text/html''
                then (initial_state fs)\<lparr>ps_body_html := part_text part\<rparr>
                else (initial_state fs)\<lparr>ps_body_text := part_text part\<rparr>)
             else initial_state fs)))"

subsection \<open>The body of a message without its attachments\<close>

text \<open>
  The text of the plain-text parts and of the HTML parts that are not attachments and
  have a payload, and from them the pure body text: the plain text, or the text derived
  from the HTML when there is only HTML.
\<close>

definition plain_text_of :: "mime_part list \<Rightarrow> pystr" where
  "plain_text_of parts =
     concat (map part_text (filter (\<lambda>p. \<not> is_attachment_part p
        \<and> part_content_type p = ascii ''text/plain'' \<and> payload_present p) parts))"

definition html_of :: "mime_part list \<Rightarrow> pystr" where
  "html_of parts =
     concat (map part_text (filter (\<lambda>p. \<not> is_attachment_part p
        \<and> part_content_type p = ascii ''text/html'' \<and> payload_present p) parts))"

definition body_or_html_text :: "parser_env \<Rightarrow> pystr \<Rightarrow> pystr \<Rightarrow> pystr" where
  "body_or_html_text env body_text body_html =
     (if body_html \<noteq> [] \<and> body_text = [] then extract_text_from_html env body_html
      else body_text)"

definition pure_body_text :: "parser_env \<Rightarrow> message_body \<Rightarrow> pystr" where
  "pure_body_text env msg =
     (case msg of
        Multipart parts \<Rightarrow> body_or_html_text env (plain_text_of parts) (html_of parts)
      | Singlepart part \<Rightarrow>
          if payload_present part then
            (if part_content_type part = ascii ''text/html''
             then body_or_html_text env [] (part_text part)
             else body_or_html_text env (part_text part) [])
          else [])"

text \<open>The attachments that have an extracted text, as (filename, extracted text).\<close>

definition extracted_pairs :: "attachment_info list \<Rightarrow> (pystr \<times> pystr) list" where
  "extracted_pairs atts =
     concat (map (\<lambda>a. case ai_extracted_text a of
                         None \<Rightarrow> []
                       | Some t \<Rightarrow> [(ai_filename a, t)]) atts)"

text \<open>The blocks the parser appends for them.\<close>

definition blocks_of :: "attachment_info list \<Rightarrow> pystr list" where
  "blocks_of atts =
     map (\<lambda>(fname, extracted). attachment_block fname extracted) (extracted_pairs atts)"

section \<open>Downloading a message (\<open>NaverMailParser.download_email_full\<close>)\<close>

text \<open>
  A fetched message: the raw Subject, From, To and Date headers (empty when absent) and
  the body. The IMAP connection is absent (not connected) or a fetch function that
  raises or returns a status and the message.
\<close>

record imap_message =
  im_subject :: pystr
  im_sender :: pystr
  im_recipient :: pystr
  im_date :: pystr
  im_body :: message_body

type_synonym imap_connection = "(pystr \<Rightarrow> py_exn + pystr \<times> imap_message) option"

record downloaded_email =
  dl_id :: pystr
  dl_subject :: pystr
  dl_sender :: pystr
  dl_recipient :: pystr
  dl_date :: pystr
  dl_body :: pystr
  dl_body_html :: pystr
  dl_attachments :: "attachment_info list"
  dl_download_folder :: pystr

text \<open>
  Writing a text file with UTF-8 encoding: the file is created (or emptied) when it is
  opened, and holds the encoded text when the encoding succeeds.
\<close>

definition write_text :: "parser_env \<Rightarrow> filesystem \<Rightarrow> pystr \<Rightarrow> pystr \<Rightarrow> filesystem \<times> py_exn option" where
  "write_text env fs p s =
     (case open_for_writing fs p of
        Inl e \<Rightarrow> (fs, Some e)
      | Inr fs' \<Rightarrow>
          (case utf8_encode env s of
             Inl e \<Rightarrow> (fs', Some e)
           | Inr b \<Rightarrow> (fs'(p \<mapsto> File b), None)))"

definition write_json :: "parser_env \<Rightarrow> filesystem \<Rightarrow> pystr \<Rightarrow> email_metadata \<Rightarrow> filesystem \<times> py_exn option" where
  "write_json env fs p metadata =
     (case open_for_writing fs p of
        Inl e \<Rightarrow> (fs, Some e)
      | Inr fs' \<Rightarrow>
          (case json_dump env metadata of
             Inl e \<Rightarrow> (fs', Some e)
           | Inr b \<Rightarrow> (fs'(p \<mapsto> File b), None)))"

text \<open>
  The three artifacts, in the order of the source: \<open>body.txt\<close> when the body text is not
  empty, \<open>body.html\<close> when the HTML is not empty, \<open>metadata.json\<close>. The first exception
  ends the writing.
\<close>

definition write_artifacts ::
  "parser_env \<Rightarrow> filesystem \<Rightarrow> pystr \<Rightarrow> parsed_content \<Rightarrow> email_metadata \<Rightarrow> filesystem \<times> py_exn option" where
  "write_artifacts env fs email_folder parsed metadata =
     (case (if pc_body_text parsed \<noteq> []
            then write_text env fs (path_join email_folder (ascii ''body.txt'')) (pc_body_text parsed)
            else (fs, None)) of
        (fs1, Some e) \<Rightarrow> (fs1, Some e)
      | (fs1, None) \<Rightarrow>
          (case (if pc_body_html parsed \<noteq> []
                 then write_text env fs1 (path_join email_folder (ascii ''body.html'')) (pc_body_html parsed)
                 else (fs1, None)) of
             (fs2, Some e) \<Rightarrow> (fs2, Some e)
           | (fs2, None) \<Rightarrow>
               write_json env fs2 (path_join email_folder (ascii ''metadata.json'')) metadata))"

text \<open>
  The result is the file system after the call and the record, or \<open>None\<close> in place of
  the record where the source returns \<open>None\<close> (not connected, a status other than OK, or
  an exception, which the source prints and swallows).
\<close>

definition download_email_full ::
  "parser_env \<Rightarrow> imap_connection \<Rightarrow> filesystem \<Rightarrow> pystr \<Rightarrow> bool \<Rightarrow> (filesystem \<times> downloaded_email option) option" where
  "download_email_full env mail fs email_id extract_attachment_text =
     (case mail of
        None \<Rightarrow> Some (fs, None)
      | Some fetch \<Rightarrow>
          (case fetch email_id of
             Inl e \<Rightarrow> Some (fs, None)
           | Inr (status, msg) \<Rightarrow>
               if status \<noteq> ascii ''OK'' then Some (fs, None)
               else
                 (case (decode_mime_words env (im_subject msg),
                        decode_mime_words env (im_sender msg),
                        decode_mime_words env (im_recipient msg)) of
                    (Inr subject, Inr sender, Inr recipient) \<Rightarrow>
                      (case parse_email_body_and_attachments env fs (im_body msg) email_id
                              extract_attachment_text of
                         None \<Rightarrow> None
                       | Some (fs1, parsed_content) \<Rightarrow>
                           (case mkdir_exist_ok fs1 (download_path env)
                                   (email_folder_path env email_id) of
                              Inl e \<Rightarrow> Some (fs1, None)
                            | Inr fs2 \<Rightarrow>
                                (case write_artifacts env fs2 (email_folder_path env email_id)
                                        parsed_content
                                        \<lparr>md_id = email_id, md_subject = subject,
                                         md_sender = sender, md_recipient = recipient,
                                         md_date = im_date msg,
                                         md_downloaded_at = now_isoformat env,
                                         md_has_html = (pc_body_html parsed_content \<noteq> []),
                                         md_attachment_count = length (pc_attachments parsed_content)\<rparr> of
                                   (fs3, Some e) \<Rightarrow> Some (fs3, None)
                                 | (fs3, None) \<Rightarrow>
                                     Some (fs3, Some
                                       \<lparr>dl_id = email_id, dl_subject = subject,
                                        dl_sender = sender, dl_recipient = recipient,
                                        dl_date = im_date msg,
                                        dl_body = pc_body_text parsed_content,
                                        dl_body_html = pc_body_html parsed_content,
                                        dl_attachments = pc_attachments parsed_content,
                                        dl_download_folder = email_folder_path env email_id\<rparr>))))
                  | _ \<Rightarrow> Some (fs, None))))"

text \<open>
  An example: the codecs return the bytes as code points; message 7 has a plain-text part
  \<open>Hello\<close> and an attachment \<open>a.txt\<close> holding \<open>World\<close>.
\<close>

definition example_text_env :: parser_env where
  "example_text_env =
     example_parser_env\<lparr>libraries := example_env\<lparr>decode_text := (\<lambda>enc b. Inr b)\<rparr>\<rparr>"

definition example_message :: imap_message where
  "example_message =
     \<lparr>im_subject = ascii ''Hi'', im_sender = ascii ''a@example.org'',
      im_recipient = ascii ''b@example.org'', im_date = ascii ''Mon, 1 Jan 2024'',
      im_body = Multipart
        [\<lparr>part_filename = None, part_payload = Some (ascii ''Hello''),
          part_content_type = ascii ''text/plain'', part_content_disposition = ascii ''None'',
          part_text = ascii ''Hello''\<rparr>,
         example_attachment_part (ascii ''a.txt'') (ascii ''World'')]\<rparr>"

definition example_fetch :: "pystr \<Rightarrow> py_exn + pystr \<times> imap_message" where
  "example_fetch email_id = Inr (ascii ''OK'', example_message)"

section \<open>Viewing a message (\<open>NaverMailParser.view_email_content\<close>)\<close>

text \<open>
  An entry of the \<open>attachments\<close> list of a viewed message is a dict: the record of a saved
  attachment (all five keys when the text was extracted), or an entry of the directory
  listing (filename, filepath and size only). The dict of the viewed message keeps, of
  the keys of the metadata, those that the summarizer reads; a key is absent or has its
  string.
\<close>

record attachment_meta =
  am_filename :: pystr
  am_filepath :: pystr
  am_size :: nat
  am_content_type :: "pystr option"
  am_extracted_text :: "pystr option"

record viewed_email =
  ve_subject :: "pystr option"
  ve_sender :: "pystr option"
  ve_date :: "pystr option"
  ve_recipient :: "pystr option"
  ve_body :: "pystr option"
  ve_attachments :: "attachment_meta list option"

text \<open>The dict that \<open>download_email_full\<close> returns, read as such a dict.\<close>

definition meta_of_info :: "attachment_info \<Rightarrow> attachment_meta" where
  "meta_of_info a =
     \<lparr>am_filename = ai_filename a, am_filepath = ai_filepath a, am_size = ai_size a,
      am_content_type = Some (ai_content_type a), am_extracted_text = ai_extracted_text a\<rparr>"

definition viewed_of_download :: "downloaded_email \<Rightarrow> viewed_email" where
  "viewed_of_download r =
     \<lparr>ve_subject = Some (dl_subject r), ve_sender = Some (dl_sender r),
      ve_date = Some (dl_date r), ve_recipient = Some (dl_recipient r),
      ve_body = Some (dl_body r), ve_attachments = Some (map meta_of_info (dl_attachments r))\<rparr>"

text \<open>
  Reading a message that is already in its folder takes from outside: the parsing of
  \<open>metadata.json\<close> (\<open>json.load\<close> on the file opened as UTF-8, which can raise), the names
  of the entries of a directory in the order in which \<open>iterdir\<close> yields them, and the
  size that \<open>stat\<close> reports for a directory.
\<close>

record stored_metadata =
  sm_subject :: "pystr option"
  sm_sender :: "pystr option"
  sm_date :: "pystr option"
  sm_recipient :: "pystr option"

record viewer_env =
  json_load :: "bytes \<Rightarrow> py_exn + stored_metadata"
  iterdir :: "filesystem \<Rightarrow> pystr \<Rightarrow> py_exn + pystr list"
  dir_st_size :: nat

definition read_text_utf8 :: "parser_env \<Rightarrow> filesystem \<Rightarrow> pystr \<Rightarrow> py_exn + pystr" where
  "read_text_utf8 env fs p =
     (case read_bytes fs p of
        Inl e \<Rightarrow> Inl e
      | Inr b \<Rightarrow> decode_text (libraries env) (ascii ''utf-8'') b)"

definition st_size :: "viewer_env \<Rightarrow> filesystem \<Rightarrow> pystr \<Rightarrow> py_exn + nat" where
  "st_size venv fs p =
     (case node_at fs p of
        None \<Rightarrow> Inl (OSError (ascii ''No such file or directory''))
      | Some Dir \<Rightarrow> Inr (dir_st_size venv)
      | Some (File b) \<Rightarrow> Inr (length b))"

text \<open>The loop over the entries of the folder: the three artifacts are left out.\<close>

fun listed_attachments :: "viewer_env \<Rightarrow> filesystem \<Rightarrow> pystr \<Rightarrow> pystr list \<Rightarrow> py_exn + attachment_meta list" where
  "listed_attachments venv fs email_folder [] = Inr []"
| "listed_attachments venv fs email_folder (name # rest) =
     (if name \<in> set [ascii ''body.txt'', ascii ''body.html'', ascii ''metadata.json'']
      then listed_attachments venv fs email_folder rest
      else
        (case st_size venv fs (path_join email_folder name) of
           Inl e \<Rightarrow> Inl e
         | Inr file_size \<Rightarrow>
             (case listed_attachments venv fs email_folder rest of
                Inl e \<Rightarrow> Inl e
              | Inr attachments \<Rightarrow>
                  Inr (\<lparr>am_filename = name, am_filepath = path_join email_folder name,
                        am_size = file_size, am_content_type = None,
                        am_extracted_text = None\<rparr> # attachments))))"

text \<open>The body of the \<open>try\<close> for a message that is already in its folder.\<close>

definition read_downloaded :: "parser_env \<Rightarrow> viewer_env \<Rightarrow> filesystem \<Rightarrow> pystr \<Rightarrow> py_exn + viewed_email" where
  "read_downloaded env venv fs email_folder =
     (case read_bytes fs (path_join email_folder (ascii ''metadata.json'')) of
        Inl e \<Rightarrow> Inl e
      | Inr b \<Rightarrow>
     (case json_load venv b of
        Inl e \<Rightarrow> Inl e
      | Inr metadata \<Rightarrow>
     (case (if path_exists fs (path_join email_folder (ascii ''body.txt''))
            then read_text_utf8 env fs (path_join email_folder (ascii ''body.txt''))
            else Inr []) of
        Inl e \<Rightarrow> Inl e
      | Inr body_text \<Rightarrow>
     (case (if path_exists fs (path_join email_folder (ascii ''body.html''))
            then read_text_utf8 env fs (path_join email_folder (ascii ''body.html''))
            else Inr []) of
        Inl e \<Rightarrow> Inl e
      | Inr body_html \<Rightarrow>
     (case iterdir venv fs email_folder of
        Inl e \<Rightarrow> Inl e
      | Inr names \<Rightarrow>
     (case listed_attachments venv fs email_folder names of
        Inl e \<Rightarrow> Inl e
      | Inr attachments \<Rightarrow>
          Inr \<lparr>ve_subject = sm_subject metadata, ve_sender = sm_sender metadata,
               ve_date = sm_date metadata, ve_recipient = sm_recipient metadata,
               ve_body = Some body_text, ve_attachments = Some attachments\<rparr>))))))"

text \<open>
  A message whose folder does not exist is downloaded, with the extraction of the
  attachment texts (the default); otherwise it is read from its folder, and an exception
  there gives \<open>None\<close>.
\<close>

definition view_email_content ::
  "parser_env \<Rightarrow> viewer_env \<Rightarrow> imap_connection \<Rightarrow> filesystem \<Rightarrow> pystr \<Rightarrow> (filesystem \<times> viewed_email option) option" where
  "view_email_content env venv mail fs email_id =
     (if \<not> path_exists fs (email_folder_path env email_id) then
        (case download_email_full env mail fs email_id True of
           None \<Rightarrow> None
         | Some (fs', r) \<Rightarrow> Some (fs', map_option viewed_of_download r))
      else
        Some (fs, case read_downloaded env venv fs (email_folder_path env email_id) of
                    Inl e \<Rightarrow> None
                  | Inr email_data \<Rightarrow> Some email_data))"

section \<open>Separating body and attachments (\<open>TextSummarizer.get_email_body_and_attachments_separately\<close>)\<close>

text \<open>
  A dict of the returned \<open>attachments\<close> list: the three keys that the segmentation sets,
  and the keys that the merge of the metadata adds.
\<close>

record separated_attachment =
  sa_index :: nat
  sa_filename :: pystr
  sa_extracted_text :: pystr
  sa_filepath :: "pystr option"
  sa_size :: "nat option"
  sa_content_type :: "pystr option"

record separated_email =
  se_email_id :: pystr
  se_subject :: pystr
  se_sender :: pystr
  se_date :: pystr
  se_recipient :: pystr
  se_body_text :: pystr
  se_attachments :: "separated_attachment list"
  se_has_attachments :: bool

definition segmented :: "attachment_text \<Rightarrow> separated_attachment" where
  "segmented a =
     \<lparr>sa_index = at_index a, sa_filename = at_filename a,
      sa_extracted_text = at_extracted_text a,
      sa_filepath = None, sa_size = None, sa_content_type = None\<rparr>"

text \<open>\<open>d.update(att_meta)\<close>: every key of the metadata entry replaces the key of that name.\<close>

definition dict_update :: "separated_attachment \<Rightarrow> attachment_meta \<Rightarrow> separated_attachment" where
  "dict_update d att_meta =
     d\<lparr>sa_filename := am_filename att_meta,
       sa_filepath := Some (am_filepath att_meta),
       sa_size := Some (am_size att_meta),
       sa_content_type :=
         (case am_content_type att_meta of None \<Rightarrow> sa_content_type d | Some c \<Rightarrow> Some c),
       sa_extracted_text :=
         (case am_extracted_text att_meta of None \<Rightarrow> sa_extracted_text d | Some t \<Rightarrow> t)\<rparr>"

text \<open>
  The loop \<open>for i, att_meta in enumerate(email_data['attachments'])\<close>: the entry at
  position \<open>i\<close> updates the dict at position \<open>i\<close>, when there is one.
\<close>

fun merge_metadata :: "separated_attachment list \<Rightarrow> attachment_meta list \<Rightarrow> separated_attachment list" where
  "merge_metadata [] metas = []"
| "merge_metadata (d # ds) [] = d # ds"
| "merge_metadata (d # ds) (att_meta # metas) = dict_update d att_meta # merge_metadata ds metas"

definition get_or :: "pystr option \<Rightarrow> pystr \<Rightarrow> pystr" where
  "get_or v d = (case v of None \<Rightarrow> d | Some s \<Rightarrow> s)"

text \<open>What the method does with the dict of the viewed message.\<close>

definition separate_viewed :: "pystr \<Rightarrow> viewed_email \<Rightarrow> separated_email" where
  "separate_viewed email_id email_data =
     (case decode (get_or (ve_body email_data) []) of
        (body_only, records) \<Rightarrow>
          (let attachments_with_text =
                 (case ve_attachments email_data of
                    None \<Rightarrow> map segmented records
                  | Some metas \<Rightarrow> merge_metadata (map segmented records) metas)
           in \<lparr>se_email_id = email_id,
               se_subject = get_or (ve_subject email_data) [],
               se_sender = get_or (ve_sender email_data) [],
               se_date = get_or (ve_date email_data) [],
               se_recipient = get_or (ve_recipient email_data) [],
               se_body_text = body_only,
               se_attachments = attachments_with_text,
               se_has_attachments = (length attachments_with_text > 0)\<rparr>))"

text \<open>"The mail cannot be found: ", the error for a message that cannot be viewed.\<close>

definition mail_not_found_prefix :: pystr where
  "mail_not_found_prefix =
     [47700, 51068, 51012] @ ascii '' '' @ [52286, 51012] @ ascii '' '' @ [49688] @ ascii '' ''
       @ [50630, 49845, 45768, 45796] @ ascii '': ''"

text \<open>
  The method: the file system after the call and the returned dict, \<open>Inl\<close> the value of
  its \<open>error\<close> key or \<open>Inr\<close> the record of the other keys.
\<close>

definition get_email_body_and_attachments_separately ::
  "parser_env \<Rightarrow> viewer_env \<Rightarrow> imap_connection \<Rightarrow> filesystem \<Rightarrow> pystr \<Rightarrow> (filesystem \<times> (pystr + separated_email)) option" where
  "get_email_body_and_attachments_separately env venv mail fs email_id =
     (case view_email_content env venv mail fs email_id of
        None \<Rightarrow> None
      | Some (fs', None) \<Rightarrow> Some (fs', Inl (mail_not_found_prefix @ email_id))
      | Some (fs', Some email_data) \<Rightarrow> Some (fs', Inr (separate_viewed email_id email_data)))"




text \<open>
  Message 9 is already in its folder, with the combined text of the body \<open>Hello\<close> and of
  two attachments, \<open>a.txt\<close> holding \<open>one\<close> and a newline and \<open>b.txt\<close> holding \<open>two\<close>; the
  directory lists \<open>b.txt\<close> before \<open>a.txt\<close>.
\<close>

definition example_cached_viewer :: viewer_env where
  "example_cached_viewer =
     \<lparr>json_load = (\<lambda>b. Inr \<lparr>sm_subject = Some (ascii ''Hi''), sm_sender = None,
                              sm_date = None, sm_recipient = None\<rparr>),
      iterdir = (\<lambda>fs p. Inr [ascii ''b.txt'', ascii ''body.txt'', ascii ''a.txt'',
                               ascii ''metadata.json'']),
      dir_st_size = 4096\<rparr>"

definition example_cached_folder :: filesystem where
  "example_cached_folder =
     [ascii ''downloads'' \<mapsto> Dir,
      ascii ''downloads/email_9'' \<mapsto> Dir,
      ascii ''downloads/email_9/metadata.json'' \<mapsto> File [],
      ascii ''downloads/email_9/body.txt'' \<mapsto>
        File (encode (ascii ''Hello'')
                [(ascii ''a.txt'', ascii ''one'' @ [10]), (ascii ''b.txt'', ascii ''two'')]),
      ascii ''downloads/email_9/a.txt'' \<mapsto> File (ascii ''one'' @ [10]),
      ascii ''downloads/email_9/b.txt'' \<mapsto> File (ascii ''two'')]"

section \<open>Facts about the string functions\<close>

lemmas py_eval =
  ascii_def py_isspace_def py_lstrip_def py_rstrip_def py_strip_def py_in_def
  marker_token_def split_seq_def attachment_block_def combine_text_def encode_def
  parse_attachment_part_def decode_def sublist_Cons_right

lemma lstrip_rstrip_nil: "dropWhile py_isspace s = [] \<Longrightarrow> py_strip s = []"
  unfolding py_strip_def py_lstrip_def py_rstrip_def by (simp del: dropWhile_eq_Nil_conv)

lemma strip_snoc_space:
  assumes "py_isspace c" shows "py_strip (s @ [c]) = py_strip s"
proof (cases "dropWhile py_isspace s = []")
  case True
  then have "\<forall>x\<in>set s. py_isspace x" by (simp add: dropWhile_eq_Nil_conv)
  with assms have "dropWhile py_isspace (s @ [c]) = []" by (simp add: dropWhile_eq_Nil_conv)
  with True show ?thesis by (simp add: lstrip_rstrip_nil)
next
  case False
  then have "\<exists>x\<in>set s. \<not> py_isspace x" by (simp add: dropWhile_eq_Nil_conv)
  then obtain x where "x \<in> set s" "\<not> py_isspace x" by blast
  then have "dropWhile py_isspace (s @ [c]) = dropWhile py_isspace s @ [c]"
    by (rule dropWhile_append1)
  with assms show ?thesis by (simp add: py_strip_def py_lstrip_def py_rstrip_def)
qed

lemma rstrip_prefix: "prefix (py_rstrip s) s"
proof -
  have "rev (takeWhile py_isspace (rev s) @ dropWhile py_isspace (rev s)) = rev (rev s)"
    by (simp only: takeWhile_dropWhile_id)
  then have "s = py_rstrip s @ rev (takeWhile py_isspace (rev s))"
    by (simp only: rev_append rev_rev_ident py_rstrip_def)
  then show ?thesis by (metis prefixI)
qed

lemma strip_sublist: "sublist (py_strip s) s"
proof -
  have "suffix (py_lstrip s) s" by (simp add: py_lstrip_def suffix_dropWhile)
  moreover have "prefix (py_strip s) (py_lstrip s)" by (simp add: py_strip_def rstrip_prefix)
  ultimately show ?thesis
    by (meson prefix_imp_sublist suffix_imp_sublist sublist_order.order_trans)
qed

lemma lstrip_fix: "s = [] \<or> \<not> py_isspace (hd s) \<Longrightarrow> py_lstrip s = s"
  by (cases s) (auto simp: py_lstrip_def)

lemma rstrip_fix: "s = [] \<or> \<not> py_isspace (last s) \<Longrightarrow> py_rstrip s = s"
  by (cases s rule: rev_cases) (auto simp: py_rstrip_def)

lemma hd_lstrip: "py_lstrip s \<noteq> [] \<Longrightarrow> \<not> py_isspace (hd (py_lstrip s))"
  unfolding py_lstrip_def by (metis hd_dropWhile)

lemma last_rstrip: "py_rstrip s \<noteq> [] \<Longrightarrow> \<not> py_isspace (last (py_rstrip s))"
  unfolding py_rstrip_def by (metis hd_dropWhile last_rev rev_is_Nil_conv)

lemma strip_ends:
  "py_strip s \<noteq> [] \<Longrightarrow> \<not> py_isspace (hd (py_strip s)) \<and> \<not> py_isspace (last (py_strip s))"
proof -
  assume ne: "py_strip s \<noteq> []"
  have l: "\<not> py_isspace (last (py_strip s))" using ne last_rstrip by (simp add: py_strip_def)
  have p: "prefix (py_strip s) (py_lstrip s)" by (simp add: py_strip_def rstrip_prefix)
  then have "py_lstrip s \<noteq> []" using ne by auto
  then have "\<not> py_isspace (hd (py_lstrip s))" by (rule hd_lstrip)
  moreover have "hd (py_strip s) = hd (py_lstrip s)" using p ne
    by (metis hd_append2 prefixE)
  ultimately show ?thesis using l by simp
qed

lemma strip_fix: "s = [] \<or> (\<not> py_isspace (hd s) \<and> \<not> py_isspace (last s)) \<Longrightarrow> py_strip s = s"
  by (auto simp: py_strip_def lstrip_fix rstrip_fix)

lemma strip_idem: "py_strip (py_strip s) = py_strip s"
  using strip_ends [of s] strip_fix [of "py_strip s"] by blast

lemma strip_fix_ends: "py_strip s = s \<Longrightarrow> s \<noteq> [] \<Longrightarrow> \<not> py_isspace (hd s) \<and> \<not> py_isspace (last s)"
  using strip_ends [of s] by simp

lemma py_split_no_sep: "\<not> sublist sep s \<Longrightarrow> py_split sep s = [s]"
proof (induction s)
  case Nil
  then show ?case by simp
next
  case (Cons c cs)
  then have "\<not> prefix sep (c # cs)" "\<not> sublist sep cs"
    by (auto simp: sublist_Cons_right)
  with Cons.IH show ?case by simp
qed

lemma py_split_first:
  assumes "sep \<noteq> []"
    and "\<And>d. d \<noteq> [] \<Longrightarrow> suffix d a \<Longrightarrow> \<not> prefix sep (d @ sep @ rest)"
  shows "py_split sep (a @ sep @ rest) = a # py_split sep rest"
  using assms(2)
proof (induction a)
  case Nil
  from assms(1) obtain c cs where sep: "sep = c # cs" by (cases sep) auto
  then show ?case by simp
next
  case (Cons x a)
  have "\<not> prefix sep ((x # a) @ sep @ rest)"
    using Cons.prems [of "x # a"] by simp
  moreover have "py_split sep (a @ sep @ rest) = a # py_split sep rest"
  proof (rule Cons.IH)
    fix d assume "d \<noteq> []" "suffix d a"
    then show "\<not> prefix sep (d @ sep @ rest)"
      using Cons.prems [of d] by (simp add: suffix_Cons)
  qed
  ultimately show ?case by simp
qed

lemma prefix_append_short:
  "prefix xs (ys @ zs) \<Longrightarrow> length xs \<le> length ys \<Longrightarrow> prefix xs ys"
  by (auto simp: prefix_append)

lemma length_split_seq: "length split_seq = 11"
  by (simp add: split_seq_def marker_token_def)

lemma split_seq_unbordered:
  assumes "0 < k" "k < length split_seq"
  shows "\<not> prefix (drop k split_seq) split_seq"
proof -
  have "k = 1 \<or> k = 2 \<or> k = 3 \<or> k = 4 \<or> k = 5 \<or> k = 6 \<or> k = 7 \<or> k = 8 \<or> k = 9 \<or> k = 10"
    using assms unfolding length_split_seq by arith
  then show ?thesis
    by (auto simp: split_seq_def marker_token_def)
qed

lemma split_seq_no_straddle:
  assumes nosub: "\<not> sublist split_seq a" and d: "d \<noteq> []" "suffix d a"
  shows "\<not> prefix split_seq (d @ split_seq @ rest)"
proof
  assume p: "prefix split_seq (d @ split_seq @ rest)"
  show False
  proof (cases "length split_seq \<le> length d")
    case True
    with p have "prefix split_seq d"
      by (rule prefix_append_short)
    then have "sublist split_seq a" using d(2)
      by (meson prefix_imp_sublist suffix_imp_sublist sublist_order.order_trans)
    with nosub show False by simp
  next
    case False
    then have k: "0 < length d" "length d < length split_seq" using d(1) by auto
    from p obtain z where z: "d @ split_seq @ rest = split_seq @ z" by (auto simp: prefix_def)
    then have "drop (length d) (d @ split_seq @ rest) = drop (length d) (split_seq @ z)" by simp
    then have "split_seq @ rest = drop (length d) split_seq @ z" using k by simp
    then have "prefix (drop (length d) split_seq) (split_seq @ rest)" by (metis prefixI)
    then have "prefix (drop (length d) split_seq) split_seq"
      by (rule prefix_append_short) simp
    with split_seq_unbordered [OF k] show False by simp
  qed
qed

lemma split_max_first_line:
  "10 \<notin> set h \<Longrightarrow> py_split_max [10] (Suc 0) (h @ 10 # t) = [h, t]"
  by (induction h) auto

lemma replace_equals_header:
  "\<not> sublist [61, 61, 61] fn \<Longrightarrow> py_replace [61, 61, 61] [] (fn @ [32, 61, 61, 61]) = fn @ [32]"
proof (induction fn)
  case Nil
  then show ?case by simp
next
  case (Cons c cs)
  from Cons.prems have np: "\<not> prefix [61, 61, 61] (c # cs)" and ns: "\<not> sublist [61, 61, 61] cs"
    by (auto simp: sublist_Cons_right)
  have np': "\<not> prefix [61, 61, 61] (c # cs @ [32, 61, 61, 61])"
  proof (cases cs)
    case Nil
    then show ?thesis by simp
  next
    case (Cons d ds)
    then show ?thesis using np by (cases ds) auto
  qed
  have "py_replace [61, 61, 61] [] (c # cs @ [32, 61, 61, 61])
        = c # py_replace [61, 61, 61] [] (cs @ [32, 61, 61, 61])"
    using np' by (subst py_replace.simps) (simp only: if_False)
  with Cons.IH [OF ns] show ?case by simp
qed

lemma sublist_skip_no_newline:
  "10 \<notin> set u \<Longrightarrow> sublist (10 # p) (u @ v) \<Longrightarrow> sublist (10 # p) v"
  by (induction u) (auto simp: sublist_Cons_right)

lemma sublist_snoc_other:
  assumes "sublist p (v @ [c])" "p \<noteq> []" "last p \<noteq> c"
  shows "sublist p v"
proof -
  from assms(1) have "suffix p (v @ [c]) \<or> sublist p v" by (simp only: sublist_snoc)
  moreover have "\<not> suffix p (v @ [c])"
  proof
    assume "suffix p (v @ [c])"
    then obtain zs where "v @ [c] = zs @ p" by (auto simp: suffix_def)
    then have "last (v @ [c]) = last (zs @ p)" by simp
    then show False using assms(2,3) by simp
  qed
  ultimately show ?thesis by blast
qed

lemma marker_in_split_seq: "sublist marker_token split_seq"
  unfolding split_seq_def by (rule sublist_append_leftI)

lemma no_marker_no_split_seq: "\<not> sublist marker_token s \<Longrightarrow> \<not> sublist split_seq s"
  using marker_in_split_seq by (meson sublist_order.order_trans)

lemma part_no_split_seq:
  assumes fn: "10 \<notin> set fn" and notok: "\<not> sublist marker_token tx"
  shows "\<not> sublist split_seq ((32 # fn @ [32, 61, 61, 61, 10] @ tx) @ [10])"
proof
  assume "sublist split_seq ((32 # fn @ [32, 61, 61, 61, 10] @ tx) @ [10])"
  moreover have "(32 # fn @ [32, 61, 61, 61, 10] @ tx) @ [10]
                 = (32 # fn @ [32, 61, 61, 61]) @ (10 # tx @ [10])" by simp
  moreover have "split_seq = 10 # 10 # marker_token" by (simp add: split_seq_def)
  ultimately have "sublist (10 # 10 # marker_token) ((32 # fn @ [32, 61, 61, 61]) @ (10 # tx @ [10]))"
    by (simp only:)
  moreover have "10 \<notin> set (32 # fn @ [32, 61, 61, 61])" using fn by simp
  ultimately have "sublist (10 # 10 # marker_token) (10 # tx @ [10])"
    using sublist_skip_no_newline by blast
  then have "prefix (10 # marker_token) (tx @ [10]) \<or> sublist (10 # 10 # marker_token) (tx @ [10])"
    by (simp only: sublist_Cons_right Cons_prefix_Cons simp_thms)
  then have "sublist marker_token (tx @ [10])"
  proof
    assume "prefix (10 # marker_token) (tx @ [10])"
    then have "sublist (10 # marker_token) (tx @ [10])" by (rule prefix_imp_sublist)
    moreover have "sublist marker_token (10 # marker_token)"
      using sublist_append_leftI [of marker_token "[10]"] by simp
    ultimately show ?thesis by (meson sublist_order.order_trans)
  next
    assume "sublist (10 # 10 # marker_token) (tx @ [10])"
    moreover have "sublist marker_token (10 # 10 # marker_token)"
      using sublist_append_leftI [of marker_token "[10, 10]"] by simp
    ultimately show ?thesis by (meson sublist_order.order_trans)
  qed
  then have "sublist marker_token tx"
    by (rule sublist_snoc_other) (simp_all add: marker_token_def)
  with notok show False by simp
qed

lemma part_no_split_seq_last:
  assumes fn: "10 \<notin> set fn" and notok: "\<not> sublist marker_token tx"
  shows "\<not> sublist split_seq (32 # fn @ [32, 61, 61, 61, 10] @ tx)"
proof -
  have "sublist (32 # fn @ [32, 61, 61, 61, 10] @ tx) ((32 # fn @ [32, 61, 61, 61, 10] @ tx) @ [10])"
    by (rule sublist_append_rightI)
  then show ?thesis using part_no_split_seq [OF assms]
    by (meson sublist_order.order_trans)
qed

lemma strip_header:
  assumes "py_strip fn = fn" and noeq: "\<not> sublist [61, 61, 61] fn"
  shows "py_strip (py_replace [61, 61, 61] [] (py_strip (32 # fn @ [32, 61, 61, 61]))) = fn"
proof (cases "fn = []")
  case True
  then show ?thesis by (simp add: py_strip_def py_lstrip_def py_rstrip_def py_isspace_def)
next
  case False
  with assms(1) have ends: "\<not> py_isspace (hd fn)" "\<not> py_isspace (last fn)"
    using strip_fix_ends by blast+
  have sp: "py_isspace 32" by (simp add: py_isspace_def)
  have "py_lstrip (32 # fn @ [32, 61, 61, 61]) = fn @ [32, 61, 61, 61]"
    using False ends(1) sp by (cases fn) (auto simp: py_lstrip_def)
  moreover have "py_rstrip (fn @ [32, 61, 61, 61]) = fn @ [32, 61, 61, 61]"
    by (rule rstrip_fix) (simp add: py_isspace_def)
  ultimately have "py_strip (32 # fn @ [32, 61, 61, 61]) = fn @ [32, 61, 61, 61]"
    by (simp add: py_strip_def)
  then have "py_strip (py_replace [61, 61, 61] [] (py_strip (32 # fn @ [32, 61, 61, 61])))
             = py_strip (fn @ [32])"
    using noeq by (simp add: replace_equals_header)
  also have "\<dots> = py_strip fn" using sp by (rule strip_snoc_space)
  finally show ?thesis using assms(1) by simp
qed

lemma parse_part_last:
  assumes "py_strip fn = fn" "\<not> sublist [61, 61, 61] fn" "10 \<notin> set fn"
  shows "parse_attachment_part i (32 # fn @ [32, 61, 61, 61, 10] @ tx)
         = \<lparr>at_index = i, at_filename = fn, at_extracted_text = py_strip tx\<rparr>"
proof -
  have e: "32 # fn @ [32, 61, 61, 61, 10] @ tx = (32 # fn @ [32, 61, 61, 61]) @ 10 # tx"
    by simp
  have "10 \<notin> set (32 # fn @ [32, 61, 61, 61])" using assms(3) by simp
  then have sp: "py_split_max [10] (Suc 0) ((32 # fn @ [32, 61, 61, 61]) @ 10 # tx)
                 = [32 # fn @ [32, 61, 61, 61], tx]"
    by (rule split_max_first_line)
  show ?thesis
    by (simp only: parse_attachment_part_def e One_nat_def sp list.case
        strip_header [OF assms(1) assms(2)])
qed

lemma parse_part_inner:
  assumes "py_strip fn = fn" "\<not> sublist [61, 61, 61] fn" "10 \<notin> set fn"
  shows "parse_attachment_part i ((32 # fn @ [32, 61, 61, 61, 10] @ tx) @ [10])
         = \<lparr>at_index = i, at_filename = fn, at_extracted_text = py_strip tx\<rparr>"
proof -
  have "py_isspace 10" by (simp add: py_isspace_def)
  then have s: "py_strip (tx @ [10]) = py_strip tx" by (rule strip_snoc_space)
  have "(32 # fn @ [32, 61, 61, 61, 10] @ tx) @ [10] = 32 # fn @ [32, 61, 61, 61, 10] @ (tx @ [10])"
    by simp
  then show ?thesis using parse_part_last [OF assms, of i "tx @ [10]"] s by (simp only:)
qed

section \<open>Round trip of the segmentation\<close>

lemma block_eq: "attachment_block (fst a) (snd a) = split_seq @ header_and_text a"
  by (simp add: attachment_block_def split_seq_def header_and_text_def)

lemma split_seq_ne: "split_seq \<noteq> []"
  by (simp add: split_seq_def)

lemma split_blocks:
  assumes "\<forall>a\<in>set (x # xs). wf_attachment a" "\<not> sublist split_seq pre"
  shows "py_split split_seq (pre @ py_join [10] (map (\<lambda>a. attachment_block (fst a) (snd a)) (x # xs)))
         = pre # segments (x # xs)"
  using assms
proof (induction xs arbitrary: pre x)
  case Nil
  then have wf: "wf_attachment x" by simp
  have "py_split split_seq (pre @ split_seq @ header_and_text x)
        = pre # py_split split_seq (header_and_text x)"
    using split_seq_ne split_seq_no_straddle [OF Nil.prems(2)] by (rule py_split_first)
  moreover have "\<not> sublist split_seq (header_and_text x)"
    unfolding header_and_text_def
    using wf by (intro part_no_split_seq_last) (simp_all add: wf_attachment_def py_in_def)
  ultimately show ?case by (simp add: block_eq py_split_no_sep)
next
  case (Cons y ys)
  then have wf: "wf_attachment x" and rest: "\<forall>a\<in>set (y # ys). wf_attachment a" by simp_all
  have ns: "\<not> sublist split_seq (header_and_text x @ [10])"
    unfolding header_and_text_def
    using wf by (intro part_no_split_seq) (simp_all add: wf_attachment_def py_in_def)
  let ?tail = "py_join [10] (map (\<lambda>a. attachment_block (fst a) (snd a)) (y # ys))"
  have "py_split split_seq (pre @ split_seq @ ((header_and_text x @ [10]) @ ?tail))
        = pre # py_split split_seq ((header_and_text x @ [10]) @ ?tail)"
    using split_seq_ne split_seq_no_straddle [OF Cons.prems(2)] by (rule py_split_first)
  also have "py_split split_seq ((header_and_text x @ [10]) @ ?tail)
             = (header_and_text x @ [10]) # segments (y # ys)"
    using rest ns by (rule Cons.IH)
  finally show ?case by (simp add: block_eq)
qed

lemma parse_segments:
  "\<forall>a\<in>set xs. wf_attachment a \<Longrightarrow> parse_attachment_parts i (segments xs) = records_from i xs"
proof (induction xs arbitrary: i rule: segments.induct)
  case 1
  then show ?case by simp
next
  case (2 a)
  then have wf: "wf_attachment a" by simp
  have "parse_attachment_part i (header_and_text a)
        = \<lparr>at_index = i, at_filename = fst a, at_extracted_text = py_strip (snd a)\<rparr>"
    unfolding header_and_text_def
    using wf by (intro parse_part_last) (simp_all add: wf_attachment_def py_in_def)
  then show ?case by simp
next
  case (3 a b bs)
  then have wf: "wf_attachment a" by simp
  have "parse_attachment_part i (header_and_text a @ [10])
        = \<lparr>at_index = i, at_filename = fst a, at_extracted_text = py_strip (snd a)\<rparr>"
    unfolding header_and_text_def
    using wf by (intro parse_part_inner) (simp_all add: wf_attachment_def py_in_def)
  with 3 show ?case by simp
qed

lemma decode_encode:
  assumes body: "\<not> py_in marker_token body" and wf: "\<forall>a\<in>set atts. wf_attachment a"
  shows "decode (encode body atts) = (py_strip body, records_from 1 atts)"
proof (cases atts)
  case Nil
  have "\<not> sublist marker_token (py_strip body)"
    using body strip_sublist [of body] unfolding py_in_def by (meson sublist_order.order_trans)
  with Nil show ?thesis by (simp add: decode_def encode_def combine_text_def py_in_def)
next
  case (Cons x xs)
  let ?blocks = "map (\<lambda>a. attachment_block (fst a) (snd a)) (x # xs)"
  have enc: "encode body atts = py_strip body @ py_join [10] ?blocks"
    by (simp add: encode_def combine_text_def Cons case_prod_unfold)
  have ns: "\<not> sublist split_seq (py_strip body)"
    using body strip_sublist [of body] no_marker_no_split_seq unfolding py_in_def
    by (meson sublist_order.order_trans)
  have sp: "py_split split_seq (py_strip body @ py_join [10] ?blocks) = py_strip body # segments (x # xs)"
    using wf ns unfolding Cons by (rule split_blocks)
  have "\<exists>t. py_join [10] ?blocks = split_seq @ t"
    by (cases xs) (simp_all add: block_eq)
  then obtain t where "py_join [10] ?blocks = ([10, 10] @ marker_token) @ t"
    by (auto simp: split_seq_def)
  then have "encode body atts = (py_strip body @ [10, 10]) @ marker_token @ t"
    by (simp add: enc)
  then have "py_in marker_token (encode body atts)"
    unfolding py_in_def by (metis sublist_appendI)
  then have "decode (encode body atts)
             = (py_strip (py_strip body), parse_attachment_parts 1 (segments (x # xs)))"
    by (simp only: decode_def if_True enc sp list.case)
  also have "parse_attachment_parts 1 (segments (x # xs)) = records_from 1 (x # xs)"
    using wf unfolding Cons by (rule parse_segments)
  finally show ?thesis by (simp only: strip_idem Cons)
qed

lemma records_from_map2:
  "records_from i xs
   = map2 (\<lambda>k a. \<lparr>at_index = k, at_filename = fst a, at_extracted_text = py_strip (snd a)\<rparr>)
       [i ..< i + length xs] xs"
proof (induction xs arbitrary: i)
  case Nil
  then show ?case by simp
next
  case (Cons a xs)
  have "[i ..< Suc (i + length xs)] = i # [Suc i ..< Suc (i + length xs)]"
    by (rule upt_conv_Cons) simp
  then have "[i ..< i + length (a # xs)] = i # [Suc i ..< Suc i + length xs]"
    by simp
  then show ?case using Cons.IH [of "Suc i"] by (simp only: records_from.simps zip_Cons_Cons list.map prod.case)
qed

text \<open>
  The segmentation step alone: for a body text without the marker token and well-formed
  attachments, it gives the stripped body and, in order and numbered from 1, each
  attachment's filename and its extracted text stripped of surrounding whitespace.
\<close>

lemma decode_encode_numbered:
  assumes "\<not> py_in marker_token body" and "\<forall>a\<in>set atts. wf_attachment a"
  shows "decode (encode body atts)
         = (py_strip body,
            map2 (\<lambda>k a. \<lparr>at_index = k, at_filename = fst a, at_extracted_text = py_strip (snd a)\<rparr>)
              [1 ..< 1 + length atts] atts)"
  using decode_encode [OF assms] by (simp only: records_from_map2)

text \<open>An extracted text that ends with a newline leaves the segmentation without it.\<close>

lemma decode_strips_text:
  "decode (encode (ascii ''Hello'') [(ascii ''a.txt'', ascii ''World'' @ [10])])
   = (ascii ''Hello'',
      [\<lparr>at_index = 1, at_filename = ascii ''a.txt'', at_extracted_text = ascii ''World''\<rparr>])"
  by (simp add: py_eval)

text \<open>
  Why the attachments must be well-formed: a text holding the split sequence is cut into
  two records, and a filename holding \<open>===\<close> loses it.
\<close>

lemma decode_marker_in_text:
  "decode (encode (ascii ''Hello'') [(ascii ''a.txt'', ascii ''x'' @ split_seq @ ascii '' y'')])
   = (ascii ''Hello'',
      [\<lparr>at_index = 1, at_filename = ascii ''a.txt'', at_extracted_text = ascii ''x''\<rparr>,
       \<lparr>at_index = 2, at_filename = ascii ''y'', at_extracted_text = []\<rparr>])"
  by (simp add: py_eval)

lemma decode_filename_with_equals:
  "decode (encode (ascii ''Hello'') [(ascii ''a===b.txt'', ascii ''x'')])
   = (ascii ''Hello'',
      [\<lparr>at_index = 1, at_filename = ascii ''ab.txt'', at_extracted_text = ascii ''x''\<rparr>])"
  by (simp add: py_eval)

section \<open>Segmentation scenario\<close>

text \<open>
  C2. Encoding the body "Hello" with the single attachment a.txt / "World" gives
  "Hello", two newlines, the marker line for a.txt and "World"; decoding that text
  gives the body "Hello" and exactly one attachment record, a.txt with text "World".
\<close>

theorem segmentation_scenario:
  "encode (ascii ''Hello'') [(ascii ''a.txt'', ascii ''World'')]
     = ascii ''Hello'' @ [10, 10] @ ascii ''=== '' @ [52392, 48512, 54028, 51068]
       @ ascii '': a.txt ==='' @ [10] @ ascii ''World''
   \<and> decode (encode (ascii ''Hello'') [(ascii ''a.txt'', ascii ''World'')])
     = (ascii ''Hello'',
        [\<lparr>at_index = 1, at_filename = ascii ''a.txt'', at_extracted_text = ascii ''World''\<rparr>])"
  by (simp add: py_eval)

section \<open>Chunking\<close>

lemma chunk_loop_strip:
  "chunk_loop ct m ss (map py_strip ps) cur
   = (case piece_loop ct m ss ps cur of (qs, c) \<Rightarrow> (map py_strip qs, c))"
proof (induction ss arbitrary: ps cur)
  case Nil
  then show ?case by simp
next
  case (Cons s ss)
  show ?case
    using Cons.IH [of "ps @ [cur]" "s @ [46, 32]"] Cons.IH [of ps "s @ [46, 32]"]
      Cons.IH [of ps "cur @ s @ [46, 32]"]
    by (simp add: Let_def)
qed

lemma split_text_by_tokens_untrimmed:
  "split_text_by_tokens ct text m = map py_strip (untrimmed_chunks ct text m)"
  using chunk_loop_strip [of ct m "py_split [46, 32] text" "[]" "[]"]
  by (simp add: split_text_by_tokens_def untrimmed_chunks_def split: prod.splits)

lemma piece_loop_concat:
  "piece_loop ct m ss ps cur = (qs, c) \<Longrightarrow>
   concat qs @ c = concat ps @ cur @ concat (map (\<lambda>s. s @ [46, 32]) ss)"
proof (induction ss arbitrary: ps cur)
  case Nil
  then show ?case by simp
next
  case (Cons s ss)
  show ?case
  proof (cases "int (ct (cur @ s @ [46, 32])) > m")
    case True
    with Cons.prems have "piece_loop ct m ss (if cur \<noteq> [] then ps @ [cur] else ps) (s @ [46, 32]) = (qs, c)"
      by (simp add: Let_def)
    from Cons.IH [OF this] show ?thesis by simp
  next
    case False
    with Cons.prems have "piece_loop ct m ss ps (cur @ s @ [46, 32]) = (qs, c)"
      by (simp add: Let_def)
    from Cons.IH [OF this] show ?thesis by simp
  qed
qed

lemma untrimmed_chunks_concat:
  "concat (untrimmed_chunks ct text m) = concat (map (\<lambda>s. s @ [46, 32]) (py_split [46, 32] text))"
proof -
  obtain qs c where l: "piece_loop ct m (py_split [46, 32] text) [] [] = (qs, c)"
    by (cases "piece_loop ct m (py_split [46, 32] text) [] []") auto
  from piece_loop_concat [OF l] have "concat qs @ c = concat (map (\<lambda>s. s @ [46, 32]) (py_split [46, 32] text))"
    by simp
  then show ?thesis by (auto simp: untrimmed_chunks_def l)
qed

lemma py_split_rejoin:
  "sep \<noteq> [] \<Longrightarrow> concat (map (\<lambda>s. s @ sep) (py_split sep t)) = t @ sep"
proof (induction sep t rule: py_split.induct)
  case (1 sep)
  then show ?case by simp
next
  case (2 sep c cs)
  show ?case
  proof (cases "prefix sep (c # cs)")
    case True
    then obtain r where r: "c # cs = sep @ r" by (auto simp: prefix_def)
    with \<open>sep \<noteq> []\<close> have d: "drop (length sep - 1) cs = r"
      by (cases sep) auto
    have "py_split sep (c # cs) = [] # py_split sep r"
      using True d by simp
    moreover have "concat (map (\<lambda>s. s @ sep) (py_split sep r)) = r @ sep"
      using "2.IH"(1) [OF True \<open>sep \<noteq> []\<close>] d by simp
    ultimately have "concat (map (\<lambda>s. s @ sep) (py_split sep (c # cs))) = sep @ r @ sep"
      by simp
    then show ?thesis by (simp only: r append_assoc)
  next
    case False
    with 2 show ?thesis by (cases "py_split sep cs") auto
  qed
qed

lemma piece_loop_budget:
  assumes "piece_loop ct m ss ps cur = (qs, c)"
    and "\<forall>s\<in>set ss. int (ct (s @ [46, 32])) \<le> m"
    and "\<forall>p\<in>set ps. int (ct p) \<le> m"
    and "cur = [] \<or> int (ct cur) \<le> m"
  shows "(\<forall>q\<in>set qs. int (ct q) \<le> m) \<and> (c = [] \<or> int (ct c) \<le> m)"
  using assms
proof (induction ss arbitrary: ps cur)
  case Nil
  then show ?case by simp
next
  case (Cons s ss)
  show ?case
  proof (cases "int (ct (cur @ s @ [46, 32])) > m")
    case True
    with Cons.prems(1) have l: "piece_loop ct m ss (if cur \<noteq> [] then ps @ [cur] else ps) (s @ [46, 32]) = (qs, c)"
      by (simp add: Let_def)
    show ?thesis
      by (rule Cons.IH [OF l]) (use Cons.prems in auto)
  next
    case False
    with Cons.prems(1) have l: "piece_loop ct m ss ps (cur @ s @ [46, 32]) = (qs, c)"
      by (simp add: Let_def)
    show ?thesis
      by (rule Cons.IH [OF l]) (use Cons.prems False in auto)
  qed
qed

lemma untrimmed_chunks_budget:
  assumes "\<forall>s\<in>set (py_split [46, 32] text). int (ct (s @ [46, 32])) \<le> m"
  shows "\<forall>q\<in>set (untrimmed_chunks ct text m). int (ct q) \<le> m"
proof -
  obtain qs c where l: "piece_loop ct m (py_split [46, 32] text) [] [] = (qs, c)"
    by (cases "piece_loop ct m (py_split [46, 32] text) [] []") auto
  from piece_loop_budget [OF l assms] have "(\<forall>q\<in>set qs. int (ct q) \<le> m) \<and> (c = [] \<or> int (ct c) \<le> m)"
    by simp
  then show ?thesis by (auto simp: untrimmed_chunks_def l)
qed

lemma length_py_strip_le: "length (py_strip s) \<le> length s"
proof -
  have l: "length (py_lstrip t) \<le> length t" for t
    by (simp add: py_lstrip_def length_dropWhile_le)
  have r: "length (py_rstrip t) \<le> length t" for t
    by (metis py_rstrip_def length_dropWhile_le length_rev)
  show ?thesis
    unfolding py_strip_def using l r by (meson order_trans)
qed

lemma split_text_by_tokens_budget:
  assumes "\<forall>s. ct (py_strip s) \<le> ct s"
    and "\<forall>s\<in>set (py_split [46, 32] text). int (ct (s @ [46, 32])) \<le> m"
  shows "\<forall>c\<in>set (split_text_by_tokens ct text m). int (ct c) \<le> m"
proof
  fix c
  assume "c \<in> set (split_text_by_tokens ct text m)"
  then obtain q where q: "q \<in> set (untrimmed_chunks ct text m)" and c: "c = py_strip q"
    by (auto simp: split_text_by_tokens_untrimmed)
  from untrimmed_chunks_budget [OF assms(2)] q have "int (ct q) \<le> m" by blast
  moreover have "ct c \<le> ct q" using assms(1) c by simp
  ultimately show "int (ct c) \<le> m" by simp
qed

text \<open>
  C3 (as amended). For a tokenizer that counts no more tokens for a string stripped of
  its surrounding whitespace than for the string itself: when every single sentence
  followed by \<open>. \<close> is within the chunk budget, every chunk returned is within the chunk
  budget. For every tokenizer, the chunks returned are the trimmed forms of the
  accumulated pieces, and the pieces, concatenated, are the sentences of the text in
  order, each followed by \<open>. \<close> (the text followed by \<open>. \<close>); the pieces are within the
  budget as soon as the sentences are.
\<close>

theorem split_text_by_tokens_chunks:
  "((\<forall>s. ct (py_strip s) \<le> ct s)
      \<and> (\<forall>s\<in>set (py_split [46, 32] text). int (ct (s @ [46, 32])) \<le> m)
     \<longrightarrow> (\<forall>c\<in>set (split_text_by_tokens ct text m). int (ct c) \<le> m))
   \<and> split_text_by_tokens ct text m = map py_strip (untrimmed_chunks ct text m)
   \<and> concat (untrimmed_chunks ct text m) = concat (map (\<lambda>s. s @ [46, 32]) (py_split [46, 32] text))
   \<and> concat (untrimmed_chunks ct text m) = text @ [46, 32]
   \<and> ((\<forall>s\<in>set (py_split [46, 32] text). int (ct (s @ [46, 32])) \<le> m)
        \<longrightarrow> (\<forall>q\<in>set (untrimmed_chunks ct text m). int (ct q) \<le> m))"
  using split_text_by_tokens_untrimmed [of ct "text" m] untrimmed_chunks_concat [of ct "text" m]
    untrimmed_chunks_budget [of "text" ct m] py_split_rejoin [of "[46, 32]" "text"]
    split_text_by_tokens_budget [of ct "text" m]
  by simp

text \<open>The theorem on three sentences with one token per character and a budget of 10.\<close>

theorem split_text_by_tokens_chunks_witness:
  "(\<forall>s. length (py_strip s) \<le> length s)
   \<and> py_split [46, 32] (ascii ''ab. cd. efgh'') = [ascii ''ab'', ascii ''cd'', ascii ''efgh'']
   \<and> int (length (ascii ''ab. '')) \<le> 10 \<and> int (length (ascii ''cd. '')) \<le> 10
   \<and> int (length (ascii ''efgh. '')) \<le> 10
   \<and> split_text_by_tokens length (ascii ''ab. cd. efgh'') 10 = [ascii ''ab. cd.'', ascii ''efgh.'']
   \<and> int (length (ascii ''ab. cd.'')) \<le> 10 \<and> int (length (ascii ''efgh.'')) \<le> 10
   \<and> untrimmed_chunks length (ascii ''ab. cd. efgh'') 10 = [ascii ''ab. cd. '', ascii ''efgh. '']"
  using split_text_by_tokens_chunks [of length "ascii ''ab. cd. efgh''" 10] length_py_strip_le
  by (simp add: py_eval untrimmed_chunks_def split_text_by_tokens_def Let_def)

text \<open>
  C3 as stated fails: with one token per character and a budget of 3, the one-sentence
  text \<open>abcdefgh\<close> (8 tokens, over the budget) gives the single chunk \<open>abcdefgh.\<close> of 9
  tokens. With this tokenizer a stripped string never has more tokens than the string,
  so the returned chunk is over the budget only because its sentence is.
\<close>

theorem chunk_budget_counterexample:
  "int (length (ascii ''abcdefgh'')) > 3
   \<and> split_text_by_tokens length (ascii ''abcdefgh'') 3 = [ascii ''abcdefgh.'']
   \<and> int (length (ascii ''abcdefgh.'')) > 3
   \<and> (\<forall>s. length (py_strip s) \<le> length s)"
  using length_py_strip_le by (simp add: py_eval split_text_by_tokens_def Let_def)

section \<open>Filename sanitization\<close>

lemmas path_eval = py_rfind_def py_slice_to_def splitext_def dangerous_chars_def
  re_sub_dangerous_def sanitize_filename_def Let_def

lemma splitext_examples:
  "splitext (ascii ''a.txt'') = (ascii ''a'', ascii ''.txt'')"
  "splitext (ascii ''.bashrc'') = (ascii ''.bashrc'', [])"
  "splitext (ascii ''a.b/c'') = (ascii ''a.b/c'', [])"
  "splitext (ascii ''a..b'') = (ascii ''a.'', ascii ''.b'')"
  "splitext (ascii ''x/...'') = (ascii ''x/...'', [])"
  "splitext (ascii ''d/e.f.g'') = (ascii ''d/e.f'', ascii ''.g'')"
  by (simp_all add: path_eval ascii_def)

lemma last_index_absent: "c \<notin> set s \<Longrightarrow> last_index c s = None"
  by (induction s) auto

lemma replace_space_absent: "32 \<notin> set s \<Longrightarrow> py_replace [32] [95] s = s"
  by (induction s) auto

lemma re_sub_dangerous_absent:
  "set s \<inter> set dangerous_chars = {} \<Longrightarrow> re_sub_dangerous s = s"
  unfolding re_sub_dangerous_def by (induction s) auto

lemma clean_b: "re_sub_dangerous (replicate n 98) = replicate n 98"
  by (rule re_sub_dangerous_absent) (auto simp: dangerous_chars_def)

lemma sanitize_long_extension:
  "sanitize_filename (97 # 46 # replicate 250 98) = 46 # replicate 250 98"
proof -
  let ?x = "97 # 46 # replicate 250 98"
  have c: "py_replace [32] [95] (re_sub_dangerous ?x) = ?x"
  proof -
    have "re_sub_dangerous ?x = ?x"
      by (rule re_sub_dangerous_absent) (auto simp: dangerous_chars_def)
    moreover have "py_replace [32] [95] ?x = ?x"
      by (rule replace_space_absent) auto
    ultimately show ?thesis by simp
  qed
  have "last_index 47 ?x = None" by (rule last_index_absent) auto
  moreover have "last_index 46 (replicate 250 98) = None" by (rule last_index_absent) auto
  ultimately have "splitext ?x = ([97], 46 # replicate 250 98)"
    by (simp add: splitext_def py_rfind_def)
  then show ?thesis
    by (simp add: sanitize_filename_def Let_def py_slice_to_def c)
qed

lemma sanitize_leading_dot:
  "sanitize_filename (46 # replicate 250 98) = 46 # replicate 199 98"
proof -
  let ?y = "46 # replicate 250 98"
  have c: "py_replace [32] [95] (re_sub_dangerous ?y) = ?y"
  proof -
    have "re_sub_dangerous ?y = ?y"
      by (rule re_sub_dangerous_absent) (auto simp: dangerous_chars_def)
    moreover have "py_replace [32] [95] ?y = ?y"
      by (rule replace_space_absent) auto
    ultimately show ?thesis by simp
  qed
  have "last_index 47 ?y = None" by (rule last_index_absent) auto
  moreover have "last_index 46 (replicate 250 98) = None" by (rule last_index_absent) auto
  ultimately have "splitext ?y = (?y, [])"
    by (simp add: splitext_def py_rfind_def)
  then show ?thesis
    by (simp add: sanitize_filename_def Let_def py_slice_to_def c)
qed

text \<open>
  C6 at the failing input: the name \<open>a.\<close> followed by 250 letters \<open>b\<close> has an extension
  of 251 characters; the first pass returns that extension (251 characters, over the
  limit), and the second pass cuts it to 200 characters.
\<close>

theorem sanitize_not_idempotent:
  "sanitize_filename (ascii ''a.'' @ replicate 250 98) = 46 # replicate 250 98
   \<and> sanitize_filename (46 # replicate 250 98) = 46 # replicate 199 98
   \<and> sanitize_filename (sanitize_filename (ascii ''a.'' @ replicate 250 98))
       \<noteq> sanitize_filename (ascii ''a.'' @ replicate 250 98)"
proof -
  have "ascii ''a.'' @ replicate 250 98 = 97 # 46 # replicate 250 98"
    by (simp add: ascii_def)
  moreover have "replicate 199 (98::nat) \<noteq> replicate 250 98"
    by (metis length_replicate numeral_eq_iff semiring_norm(87) semiring_norm(88) semiring_norm(89) num.distinct)
  ultimately show ?thesis
    by (simp add: sanitize_long_extension sanitize_leading_dot)
qed

section \<open>Text extraction never raises\<close>

lemma str_nat_examples:
  "str_nat 1 = ascii ''1''" "str_nat 10 = ascii ''10''" "str_nat 205 = ascii ''205''"
  by (simp_all add: str_nat.simps ascii_def)

lemma extract_text_from_file_cases:
  "extract_text_from_file env fs filepath =
     (if supported_extension env (py_lower (snd (splitext filepath))) then
        (case snd (selected_branch env fs filepath) of
           Inr t \<Rightarrow> Inr t
         | Inl e \<Rightarrow> Inr (failure_marker (fst (selected_branch env fs filepath)) e))
      else Inr (ascii ''['' @ py_lower (snd (splitext filepath)) @ unsupported_suffix))"
proof -
  define ext where "ext = py_lower (snd (splitext filepath))"
  define c1 where "c1 \<longleftrightarrow> ext = ascii ''.pdf'' \<and> has_PyPDF2 env"
  define c2 where "c2 \<longleftrightarrow> ext \<in> set [ascii ''.docx'', ascii ''.doc''] \<and> has_docx env"
  define c3 where "c3 \<longleftrightarrow> ext \<in> set [ascii ''.xlsx'', ascii ''.xls''] \<and> has_openpyxl env"
  define c4 where "c4 \<longleftrightarrow> ext \<in> set [ascii ''.pptx'', ascii ''.ppt''] \<and> has_pptx env"
  define c5 where "c5 \<longleftrightarrow> ext \<in> set text_extensions"
  have sup: "supported_extension env ext \<longleftrightarrow> c1 \<or> c2 \<or> c3 \<or> c4 \<or> c5"
    unfolding supported_extension_def c1_def c2_def c3_def c4_def c5_def by (rule refl)
  have sel: "selected_branch env fs filepath =
     (if c1 then (pdf_failed_prefix, extract_pdf env fs filepath)
      else if c2 then (word_failed_prefix, extract_word env fs filepath)
      else if c3 then (excel_failed_prefix, extract_excel env fs filepath)
      else if c4 then (powerpoint_failed_prefix, extract_powerpoint env fs filepath)
      else (text_read_failed_prefix, extract_text_file env fs filepath))"
    unfolding selected_branch_def Let_def c1_def c2_def c3_def c4_def ext_def by (rule refl)
  have ex: "extract_text_from_file env fs filepath =
     try_except
       (if c1 then try_except (extract_pdf env fs filepath) (\<lambda>e. Inr (failure_marker pdf_failed_prefix e))
        else if c2 then try_except (extract_word env fs filepath) (\<lambda>e. Inr (failure_marker word_failed_prefix e))
        else if c3 then try_except (extract_excel env fs filepath) (\<lambda>e. Inr (failure_marker excel_failed_prefix e))
        else if c4 then try_except (extract_powerpoint env fs filepath) (\<lambda>e. Inr (failure_marker powerpoint_failed_prefix e))
        else if c5 then try_except (extract_text_file env fs filepath) (\<lambda>e. Inr (failure_marker text_read_failed_prefix e))
        else Inr (ascii ''['' @ ext @ unsupported_suffix))
       (\<lambda>e. Inr (failure_marker file_error_prefix e))"
    unfolding extract_text_from_file_def Let_def c1_def c2_def c3_def c4_def c5_def ext_def
    by (rule refl)
  have "extract_text_from_file env fs filepath =
     (if supported_extension env ext then
        (case snd (selected_branch env fs filepath) of
           Inr t \<Rightarrow> Inr t
         | Inl e \<Rightarrow> Inr (failure_marker (fst (selected_branch env fs filepath)) e))
      else Inr (ascii ''['' @ ext @ unsupported_suffix))"
    unfolding ex sel sup
    by (cases c1; cases c2; cases c3; cases c4; cases c5;
        simp add: try_except_def split: sum.splits)
  then show ?thesis unfolding ext_def .
qed

lemma bracketed_failure_marker:
  "p \<in> set category_prefixes \<Longrightarrow> bracketed (failure_marker p e)"
  by (auto simp: category_prefixes_def bracketed_def failure_marker_def pdf_failed_prefix_def
      word_failed_prefix_def excel_failed_prefix_def powerpoint_failed_prefix_def
      text_read_failed_prefix_def file_error_prefix_def ascii_def)

lemma selected_prefix_category:
  "fst (selected_branch env fs filepath) \<in> set category_prefixes"
  by (simp add: selected_branch_def category_prefixes_def Let_def)

lemma unsupported_marker_wording:
  "py_in not_supported_wording (ascii ''['' @ ext @ unsupported_suffix)
   \<and> bracketed (ascii ''['' @ ext @ unsupported_suffix)"
proof -
  obtain a where a: "unsupported_suffix = a @ not_supported_wording @ ascii '']''"
    unfolding unsupported_suffix_def by (metis append_assoc)
  then have "ascii ''['' @ ext @ unsupported_suffix
             = (ascii ''['' @ ext @ a) @ not_supported_wording @ ascii '']''"
    by simp
  then have "sublist not_supported_wording (ascii ''['' @ ext @ unsupported_suffix)"
    by (metis sublist_appendI)
  moreover have "bracketed (ascii ''['' @ ext @ unsupported_suffix)"
    by (simp add: bracketed_def a ascii_def)
  ultimately show ?thesis by (simp add: py_in_def)
qed

lemma bracketed_encoding_failed_marker: "bracketed encoding_failed_marker"
  by (simp add: bracketed_def encoding_failed_marker_def ascii_def)

lemma try_encodings_all_fail:
  "read_bytes fs filepath = Inr b \<Longrightarrow>
   \<forall>enc\<in>set encs. \<exists>m. decode_text env enc b = Inl (UnicodeDecodeError m) \<Longrightarrow>
   try_encodings env fs filepath encs = Inr encoding_failed_marker"
  by (induction encs) auto

text \<open>
  C5. For every file path, file system and set of libraries, extract_text_from_file
  returns a string and never raises. For an extension the dispatch supports, the string is
  what the selected extraction returns or, when that extraction raises, the bracketed
  marker made of the category prefix, the message of the exception and a closing bracket;
  the text extraction returns the bracketed encoding-failure marker when every encoding
  fails to decode the file. For any other extension (for example .bin) the string is the
  bracketed marker holding the extension and the "not supported" wording.
\<close>

theorem extract_text_from_file_never_raises:
  "\<exists>s. extract_text_from_file env fs filepath = Inr s
     \<and> (supported_extension env (py_lower (snd (splitext filepath))) \<longrightarrow>
          (case snd (selected_branch env fs filepath) of
             Inr t \<Rightarrow> s = t
           | Inl e \<Rightarrow> s = failure_marker (fst (selected_branch env fs filepath)) e
                      \<and> fst (selected_branch env fs filepath) \<in> set category_prefixes
                      \<and> bracketed s))
     \<and> (\<not> supported_extension env (py_lower (snd (splitext filepath))) \<longrightarrow>
          s = ascii ''['' @ py_lower (snd (splitext filepath)) @ unsupported_suffix
          \<and> py_in not_supported_wording s \<and> bracketed s)
     \<and> ((\<exists>b. read_bytes fs filepath = Inr b
              \<and> (\<forall>enc\<in>set text_encodings. \<exists>m. decode_text env enc b = Inl (UnicodeDecodeError m))) \<longrightarrow>
          extract_text_file env fs filepath = Inr encoding_failed_marker
          \<and> bracketed encoding_failed_marker)"
proof -
  have enc: "(\<exists>b. read_bytes fs filepath = Inr b
              \<and> (\<forall>enc\<in>set text_encodings. \<exists>m. decode_text env enc b = Inl (UnicodeDecodeError m))) \<longrightarrow>
          extract_text_file env fs filepath = Inr encoding_failed_marker
          \<and> bracketed encoding_failed_marker"
    using try_encodings_all_fail [of fs filepath _ text_encodings env] bracketed_encoding_failed_marker
    unfolding extract_text_file_def by blast
  show ?thesis
proof (cases "supported_extension env (py_lower (snd (splitext filepath)))")
  case True
  show ?thesis
  proof (cases "snd (selected_branch env fs filepath)")
    case (Inl e)
    with True show ?thesis
      using bracketed_failure_marker [OF selected_prefix_category, of env fs filepath e]
        selected_prefix_category [of env fs filepath] enc
      by (simp add: extract_text_from_file_cases)
  next
    case (Inr t)
    with True show ?thesis using enc by (simp add: extract_text_from_file_cases)
  qed
next
  case False
  then show ?thesis
    using unsupported_marker_wording [of "py_lower (snd (splitext filepath))"] enc
    by (simp add: extract_text_from_file_cases)
qed
qed

lemmas extract_eval = path_eval py_lower_def read_bytes_def try_except_def
  extract_text_from_file_def extract_pdf_def extract_text_file_def text_encodings_def
  text_extensions_def failure_marker_def example_env_def example_fs_def
  supported_extension_def selected_branch_def

text \<open>
  The theorem in the example: a PDF file the library rejects, a text file no codec
  decodes, an unsupported extension, and an extension whose library is absent.
\<close>

theorem extract_text_from_file_never_raises_witness:
  "extract_text_from_file example_env example_fs (ascii ''a.PDF'')
     = Inr (pdf_failed_prefix @ ascii ''EOF marker not found]'')
   \<and> supported_extension example_env (py_lower (snd (splitext (ascii ''a.PDF''))))
   \<and> extract_text_from_file example_env example_fs (ascii ''n.txt'') = Inr encoding_failed_marker
   \<and> read_bytes example_fs (ascii ''n.txt'') = Inr [255]
   \<and> extract_text_from_file example_env example_fs (ascii ''x.bin'')
     = Inr (ascii ''[.bin'' @ unsupported_suffix)
   \<and> \<not> supported_extension example_env (py_lower (snd (splitext (ascii ''x.bin''))))
   \<and> extract_text_from_file example_env example_fs (ascii ''d.docx'')
     = Inr (ascii ''[.docx'' @ unsupported_suffix)
   \<and> py_in not_supported_wording (ascii ''[.bin'' @ unsupported_suffix)"
  using extract_text_from_file_never_raises [of example_env example_fs "ascii ''a.PDF''"]
    extract_text_from_file_never_raises [of example_env example_fs "ascii ''n.txt''"]
    extract_text_from_file_never_raises [of example_env example_fs "ascii ''x.bin''"]
    unsupported_marker_wording [of "ascii ''.bin''"]
  by (simp add: extract_eval ascii_def)

section \<open>Collision resolution\<close>



lemma free_path_free: "\<not> path_exists fs p \<Longrightarrow> free_path fs orig c p = Some p"
  by (subst free_path.simps) simp
















lemmas parser_eval = path_join_def email_folder_path_def numbered_path_def
  example_parser_env_def example_attachment_part_def example_downloads_def

lemmas file_eval = path_exists_def node_at_def open_for_writing_def mkdir_exist_ok_def
  path_name_def utf8_length_def utf8_size_def name_max_def suffix_to_prefix



section \<open>The body field holds the combined text\<close>

lemma save_attachment_extracted:
  "save_attachment env fs part email_id extract_text = Some (fs', Some a) \<Longrightarrow>
   (ai_extracted_text a \<noteq> None) = extract_text"
  unfolding save_attachment_def Let_def
  by (auto split: option.splits sum.splits if_splits)

lemma handle_part_texts:
  assumes "handle_part env email_id ex st part = Some st'"
  shows "ps_body_text st' = ps_body_text st @ plain_text_of [part]
         \<and> ps_body_html st' = ps_body_html st @ html_of [part]"
  using assms unfolding handle_part_def plain_text_of_def html_of_def
  by (auto simp: ascii_def split: if_splits option.splits prod.splits)

lemma plain_text_of_Cons: "plain_text_of (p # ps) = plain_text_of [p] @ plain_text_of ps"
  by (simp add: plain_text_of_def)

lemma html_of_Cons: "html_of (p # ps) = html_of [p] @ html_of ps"
  by (simp add: html_of_def)

lemma walk_parts_texts:
  "walk_parts env email_id ex st parts = Some st' \<Longrightarrow>
   ps_body_text st' = ps_body_text st @ plain_text_of parts
   \<and> ps_body_html st' = ps_body_html st @ html_of parts"
proof (induction parts arbitrary: st)
  case Nil
  then show ?case by (simp add: plain_text_of_def html_of_def)
next
  case (Cons p ps)
  then obtain st1 where h: "handle_part env email_id ex st p = Some st1"
    and w: "walk_parts env email_id ex st1 ps = Some st'"
    by (auto split: option.splits)
  from handle_part_texts [OF h] Cons.IH [OF w] show ?case
    by (simp add: plain_text_of_Cons [of p ps] html_of_Cons [of p ps])
qed

lemma blocks_of_append:
  "blocks_of (atts @ [a]) =
     blocks_of atts @ (case ai_extracted_text a of
                         None \<Rightarrow> []
                       | Some t \<Rightarrow> [attachment_block (ai_filename a) t])"
  by (simp add: blocks_of_def extracted_pairs_def split: option.splits)

lemma handle_part_blocks:
  assumes "handle_part env email_id ex st part = Some st'"
    and "ps_attachment_texts st = blocks_of (ps_attachments st)"
  shows "ps_attachment_texts st' = blocks_of (ps_attachments st')"
proof (cases "is_attachment_part part")
  case False
  with assms show ?thesis
    unfolding handle_part_def by (auto split: if_splits)
next
  case True
  show ?thesis
  proof (cases "save_attachment env (ps_fs st) part email_id ex")
    case None
    with True assms(1) show ?thesis by (simp add: handle_part_def)
  next
    case (Some r)
    obtain fs' ao where r: "r = (fs', ao)" by (cases r) auto
    show ?thesis
    proof (cases ao)
      case None
      with True Some r assms show ?thesis by (auto simp: handle_part_def)
    next
      case (Some a)
      then have sv: "save_attachment env (ps_fs st) part email_id ex = Some (fs', Some a)"
        using \<open>save_attachment env (ps_fs st) part email_id ex = Some r\<close> r by simp
      from save_attachment_extracted [OF sv] have ex: "(ai_extracted_text a \<noteq> None) = ex" .
      from True sv assms(1) have st': "st' = st\<lparr>ps_fs := fs',
              ps_attachments := ps_attachments st @ [a],
              ps_attachment_texts :=
                (case ai_extracted_text a of
                   Some extracted \<Rightarrow>
                     if ex then ps_attachment_texts st @ [attachment_block (ai_filename a) extracted]
                     else ps_attachment_texts st
                 | None \<Rightarrow> ps_attachment_texts st)\<rparr>"
        by (simp add: handle_part_def)
      show ?thesis
        using ex assms(2) unfolding st'
        by (cases "ai_extracted_text a") (auto simp: blocks_of_append)
    qed
  qed
qed

lemma walk_parts_blocks:
  "walk_parts env email_id ex st parts = Some st' \<Longrightarrow>
   ps_attachment_texts st = blocks_of (ps_attachments st) \<Longrightarrow>
   ps_attachment_texts st' = blocks_of (ps_attachments st')"
proof (induction parts arbitrary: st)
  case Nil
  then show ?case by simp
next
  case (Cons p ps)
  then obtain st1 where h: "handle_part env email_id ex st p = Some st1"
    and w: "walk_parts env email_id ex st1 ps = Some st'"
    by (auto split: option.splits)
  from handle_part_blocks [OF h Cons.prems(2)] Cons.IH [OF w] show ?case by simp
qed

lemma encode_blocks_of:
  "encode body (extracted_pairs atts) = combine_text body (blocks_of atts)"
  by (simp add: encode_def blocks_of_def)

lemma parse_body_text:
  assumes "parse_email_body_and_attachments env fs msg email_id ex = Some (fs1, pc)"
  shows "pc_body_text pc = encode (pure_body_text env msg) (extracted_pairs (pc_attachments pc))"
proof (cases msg)
  case (Multipart parts)
  with assms obtain st where w: "walk_parts env email_id ex (initial_state fs) parts = Some st"
    and pc: "pc = finish_parse env st"
    by (auto simp: parse_email_body_and_attachments_def split: option.splits)
  from walk_parts_texts [OF w] have t: "ps_body_text st = plain_text_of parts"
    and h: "ps_body_html st = html_of parts"
    by (simp_all add: initial_state_def)
  have b: "ps_attachment_texts st = blocks_of (ps_attachments st)"
    by (rule walk_parts_blocks [OF w]) (simp add: initial_state_def blocks_of_def extracted_pairs_def)
  show ?thesis
    by (simp add: pc finish_parse_def Let_def encode_blocks_of b t h Multipart
        pure_body_text_def body_or_html_text_def)
next
  case (Singlepart part)
  with assms have pc: "pc = finish_parse env
            (if payload_present part then
               (if part_content_type part = ascii ''text/html''
                then (initial_state fs)\<lparr>ps_body_html := part_text part\<rparr>
                else (initial_state fs)\<lparr>ps_body_text := part_text part\<rparr>)
             else initial_state fs)"
    by (simp add: parse_email_body_and_attachments_def)
  show ?thesis
    unfolding pc
    by (simp add: finish_parse_def Let_def Singlepart pure_body_text_def encode_def
        body_or_html_text_def initial_state_def extracted_pairs_def)
qed

lemma py_join_blocks_start:
  assumes "ps \<noteq> []"
  shows "\<exists>t. py_join [10] (map (\<lambda>(fname, extracted). attachment_block fname extracted) ps)
        = [10, 10] @ marker_token @ t"
proof -
  from assms obtain a as where ps: "ps = a # as" by (cases ps) auto
  obtain f x where a: "a = (f, x)" by (cases a) auto
  show ?thesis
    unfolding ps a by (cases as) (simp_all add: attachment_block_def)
qed

lemma encode_with_attachments:
  assumes "ps \<noteq> []"
  shows "encode body ps \<noteq> py_strip body \<and> py_in marker_token (encode body ps)"
proof -
  obtain t where t: "py_join [10] (map (\<lambda>(fname, extracted). attachment_block fname extracted) ps)
                     = [10, 10] @ marker_token @ t"
    using py_join_blocks_start [OF assms] by blast
  have e: "encode body ps = (py_strip body @ [10, 10]) @ marker_token @ t"
    using assms by (simp add: encode_def combine_text_def t)
  then have "sublist marker_token (encode body ps)" by (metis sublist_appendI)
  moreover have "encode body ps \<noteq> py_strip body" unfolding e by simp
  ultimately show ?thesis by (simp add: py_in_def)
qed

lemma path_join_differ:
  "a \<noteq> [] \<Longrightarrow> a \<noteq> [46] \<Longrightarrow> b \<noteq> [] \<Longrightarrow> b \<noteq> [46] \<Longrightarrow> a \<noteq> b \<Longrightarrow>
   path_join folder a \<noteq> path_join folder b"
  by (simp add: path_join_def)

lemma artifact_paths_differ:
  "path_join folder (ascii ''body.html'') \<noteq> path_join folder (ascii ''body.txt'')"
  "path_join folder (ascii ''metadata.json'') \<noteq> path_join folder (ascii ''body.txt'')"
  by (rule path_join_differ; simp add: ascii_def)+

lemma open_for_writing_other:
  "open_for_writing fs p = Inr fs' \<Longrightarrow> q \<noteq> p \<Longrightarrow> fs' q = fs q"
  by (auto simp: open_for_writing_def split: option.splits node.splits if_splits)

lemma write_text_ok:
  assumes "write_text env fs p s = (fs', None)"
  shows "(\<exists>b. utf8_encode env s = Inr b \<and> fs' p = Some (File b)) \<and> (\<forall>q. q \<noteq> p \<longrightarrow> fs' q = fs q)"
proof -
  obtain f1 where o: "open_for_writing fs p = Inr f1"
    using assms by (cases "open_for_writing fs p") (simp_all add: write_text_def)
  obtain b where e: "utf8_encode env s = Inr b"
    using assms o by (cases "utf8_encode env s") (simp_all add: write_text_def)
  have "fs' = f1(p \<mapsto> File b)" using assms o e by (simp add: write_text_def)
  then show ?thesis using e open_for_writing_other [OF o] by simp
qed

lemma write_json_other:
  assumes "write_json env fs p m = (fs', None)" "q \<noteq> p"
  shows "fs' q = fs q"
proof -
  obtain f1 where o: "open_for_writing fs p = Inr f1"
    using assms(1) by (cases "open_for_writing fs p") (simp_all add: write_json_def)
  obtain b where e: "json_dump env m = Inr b"
    using assms(1) o by (cases "json_dump env m") (simp_all add: write_json_def)
  have "fs' = f1(p \<mapsto> File b)" using assms(1) o e by (simp add: write_json_def)
  then show ?thesis using assms(2) open_for_writing_other [OF o assms(2)] by simp
qed

lemma write_artifacts_body:
  assumes "write_artifacts env fs folder pc md = (fs', None)" and "pc_body_text pc \<noteq> []"
  shows "\<exists>b. utf8_encode env (pc_body_text pc) = Inr b
             \<and> fs' (path_join folder (ascii ''body.txt'')) = Some (File b)"
proof -
  let ?txt = "path_join folder (ascii ''body.txt'')"
  let ?html = "path_join folder (ascii ''body.html'')"
  let ?json = "path_join folder (ascii ''metadata.json'')"
  obtain fs1 e1 where w1: "write_text env fs ?txt (pc_body_text pc) = (fs1, e1)"
    by (cases "write_text env fs ?txt (pc_body_text pc)") auto
  have e1: "e1 = None"
    using assms w1 by (cases e1) (simp_all add: write_artifacts_def)
  obtain fs2 e2 where w2: "(if pc_body_html pc \<noteq> []
                 then write_text env fs1 ?html (pc_body_html pc)
                 else (fs1, None)) = (fs2, e2)"
    by (cases "if pc_body_html pc \<noteq> []
                 then write_text env fs1 ?html (pc_body_html pc)
                 else (fs1, None)") auto
  have a2: "(case (fs2, e2) of
               (fs2, Some e) \<Rightarrow> (fs2, Some e)
             | (fs2, None) \<Rightarrow> write_json env fs2 ?json md) = (fs', None)"
    using assms w1 e1 unfolding write_artifacts_def w2 [symmetric] by simp
  have e2: "e2 = None" using a2 by (cases e2) simp_all
  have w3: "write_json env fs2 ?json md = (fs', None)" using a2 e2 by simp
  from write_text_ok [OF w1 [unfolded e1]] obtain b where b: "utf8_encode env (pc_body_text pc) = Inr b"
    and f1: "fs1 ?txt = Some (File b)" by blast
  have "fs2 ?txt = fs1 ?txt"
  proof (cases "pc_body_html pc \<noteq> []")
    case True
    with w2 e2 have "write_text env fs1 ?html (pc_body_html pc) = (fs2, None)" by simp
    from write_text_ok [OF this] have "\<forall>q. q \<noteq> ?html \<longrightarrow> fs2 q = fs1 q" by blast
    moreover have "?txt \<noteq> ?html" using artifact_paths_differ(1) [of folder] by simp
    ultimately show ?thesis by blast
  next
    case False
    with w2 show ?thesis by simp
  qed
  moreover have "fs' ?txt = fs2 ?txt"
  proof (rule write_json_other [OF w3])
    show "?txt \<noteq> ?json" using artifact_paths_differ(2) [of folder] by simp
  qed
  ultimately show ?thesis using b f1 by simp
qed

lemma download_email_full_result:
  assumes "download_email_full env (Some fetch) fs email_id ex = Some (fs', Some r)"
    and "fetch email_id = Inr (status, msg)"
  shows "\<exists>fs1 fs2 pc md.
           parse_email_body_and_attachments env fs (im_body msg) email_id ex = Some (fs1, pc)
         \<and> write_artifacts env fs2 (email_folder_path env email_id) pc md = (fs', None)
         \<and> dl_body r = pc_body_text pc \<and> dl_attachments r = pc_attachments pc"
proof -
  have d: "(if status \<noteq> ascii ''OK'' then Some (fs, None)
               else
                 (case (decode_mime_words env (im_subject msg),
                        decode_mime_words env (im_sender msg),
                        decode_mime_words env (im_recipient msg)) of
                    (Inr subject, Inr sender, Inr recipient) \<Rightarrow>
                      (case parse_email_body_and_attachments env fs (im_body msg) email_id ex of
                         None \<Rightarrow> None
                       | Some (fs1, parsed_content) \<Rightarrow>
                           (case mkdir_exist_ok fs1 (download_path env)
                                   (email_folder_path env email_id) of
                              Inl e \<Rightarrow> Some (fs1, None)
                            | Inr fs2 \<Rightarrow>
                                (case write_artifacts env fs2 (email_folder_path env email_id)
                                        parsed_content
                                        \<lparr>md_id = email_id, md_subject = subject,
                                         md_sender = sender, md_recipient = recipient,
                                         md_date = im_date msg,
                                         md_downloaded_at = now_isoformat env,
                                         md_has_html = (pc_body_html parsed_content \<noteq> []),
                                         md_attachment_count = length (pc_attachments parsed_content)\<rparr> of
                                   (fs3, Some e) \<Rightarrow> Some (fs3, None)
                                 | (fs3, None) \<Rightarrow>
                                     Some (fs3, Some
                                       \<lparr>dl_id = email_id, dl_subject = subject,
                                        dl_sender = sender, dl_recipient = recipient,
                                        dl_date = im_date msg,
                                        dl_body = pc_body_text parsed_content,
                                        dl_body_html = pc_body_html parsed_content,
                                        dl_attachments = pc_attachments parsed_content,
                                        dl_download_folder = email_folder_path env email_id\<rparr>))))
                  | _ \<Rightarrow> Some (fs, None))) = Some (fs', Some r)"
    using assms(1) unfolding download_email_full_def
    by (simp only: option.case assms(2) sum.case prod.case)
  have ok: "status = ascii ''OK''"
    using d by (cases "status = ascii ''OK''") simp_all
  obtain subject where s1: "decode_mime_words env (im_subject msg) = Inr subject"
    using d ok by (cases "decode_mime_words env (im_subject msg)") simp_all
  obtain sender where s2: "decode_mime_words env (im_sender msg) = Inr sender"
    using d ok s1 by (cases "decode_mime_words env (im_sender msg)") simp_all
  obtain recipient where s3: "decode_mime_words env (im_recipient msg) = Inr recipient"
    using d ok s1 s2 by (cases "decode_mime_words env (im_recipient msg)") simp_all
  obtain fs1 pc where p: "parse_email_body_and_attachments env fs (im_body msg) email_id ex = Some (fs1, pc)"
    using d ok s1 s2 s3
    by (cases "parse_email_body_and_attachments env fs (im_body msg) email_id ex") auto
  obtain fs2 where m: "mkdir_exist_ok fs1 (download_path env) (email_folder_path env email_id) = Inr fs2"
    using d ok s1 s2 s3 p
    by (cases "mkdir_exist_ok fs1 (download_path env) (email_folder_path env email_id)") simp_all

  let ?md = "\<lparr>md_id = email_id, md_subject = subject,
                 md_sender = sender, md_recipient = recipient,
                 md_date = im_date msg,
                 md_downloaded_at = now_isoformat env,
                 md_has_html = (pc_body_html pc \<noteq> []),
                 md_attachment_count = length (pc_attachments pc)\<rparr>"
  obtain fs3 eo where w: "write_artifacts env fs2 (email_folder_path env email_id) pc ?md = (fs3, eo)"
    by (cases "write_artifacts env fs2 (email_folder_path env email_id) pc ?md") auto
  from d ok s1 s2 s3 p m w have "eo = None \<and> fs3 = fs' \<and> dl_body r = pc_body_text pc
                  \<and> dl_attachments r = pc_attachments pc"
    by (cases eo) auto
  with p w show ?thesis by blast
qed

lemma handle_part_flag:
  assumes "handle_part env email_id ex st part = Some st'"
    and "\<forall>a\<in>set (ps_attachments st). (ai_extracted_text a \<noteq> None) = ex"
  shows "\<forall>a\<in>set (ps_attachments st'). (ai_extracted_text a \<noteq> None) = ex"
  using assms save_attachment_extracted [of env "ps_fs st" part email_id ex]
  unfolding handle_part_def
  by (auto split: if_splits option.splits prod.splits)

lemma walk_parts_flag:
  "walk_parts env email_id ex st parts = Some st' \<Longrightarrow>
   \<forall>a\<in>set (ps_attachments st). (ai_extracted_text a \<noteq> None) = ex \<Longrightarrow>
   \<forall>a\<in>set (ps_attachments st'). (ai_extracted_text a \<noteq> None) = ex"
proof (induction parts arbitrary: st)
  case Nil
  then show ?case by simp
next
  case (Cons p ps)
  then obtain st1 where h: "handle_part env email_id ex st p = Some st1"
    and w: "walk_parts env email_id ex st1 ps = Some st'"
    by (auto split: option.splits)
  from handle_part_flag [OF h Cons.prems(2)] Cons.IH [OF w] show ?case by simp
qed

lemma parse_flag:
  assumes "parse_email_body_and_attachments env fs msg email_id ex = Some (fs1, pc)"
    and "extracted_pairs (pc_attachments pc) \<noteq> []"
  shows ex
proof (cases msg)
  case (Multipart parts)
  with assms obtain st where w: "walk_parts env email_id ex (initial_state fs) parts = Some st"
    and pc: "pc = finish_parse env st"
    by (auto simp: parse_email_body_and_attachments_def split: option.splits)
  have all: "\<forall>a\<in>set (ps_attachments st). (ai_extracted_text a \<noteq> None) = ex"
    by (rule walk_parts_flag [OF w]) (simp add: initial_state_def)
  from assms(2) obtain a where "a \<in> set (ps_attachments st)" "ai_extracted_text a \<noteq> None"
    by (auto simp: pc finish_parse_def Let_def extracted_pairs_def split: option.splits)
  with all show ?thesis by blast
next
  case (Singlepart part)
  with assms show ?thesis
    by (auto simp: parse_email_body_and_attachments_def finish_parse_def Let_def
        initial_state_def extracted_pairs_def split: if_splits)
qed

text \<open>
  C10. For every message that download_email_full returns a record for and of which at
  least one attachment has an extracted text: extraction was enabled; the body field of
  the record is the combined text, that is the encoding of the pure body text and the
  attachments' filenames and extracted texts; it differs from the stripped pure body and
  contains the marker token; the same text, UTF-8 encoded, is the content of the body.txt
  artifact; and the stripped pure body is what the decoder returns for it when the body
  has no marker token and the attachments are well-formed.
\<close>

theorem body_field_is_combined_text:
  assumes "download_email_full env (Some fetch) fs email_id extract_attachment_text
             = Some (fs', Some r)"
    and "fetch email_id = Inr (status, msg)"
    and "extracted_pairs (dl_attachments r) \<noteq> []"
  shows "extract_attachment_text
       \<and> dl_body r = encode (pure_body_text env (im_body msg)) (extracted_pairs (dl_attachments r))
       \<and> dl_body r \<noteq> py_strip (pure_body_text env (im_body msg))
       \<and> py_in marker_token (dl_body r)
       \<and> (\<exists>b. utf8_encode env (dl_body r) = Inr b
              \<and> fs' (path_join (email_folder_path env email_id) (ascii ''body.txt'')) = Some (File b))
       \<and> (\<not> py_in marker_token (pure_body_text env (im_body msg))
            \<and> (\<forall>a\<in>set (extracted_pairs (dl_attachments r)). wf_attachment a)
          \<longrightarrow> fst (decode (dl_body r)) = py_strip (pure_body_text env (im_body msg)))"
proof -
  from download_email_full_result [OF assms(1,2)] obtain fs1 fs2 pc md where
    p: "parse_email_body_and_attachments env fs (im_body msg) email_id extract_attachment_text
          = Some (fs1, pc)"
    and w: "write_artifacts env fs2 (email_folder_path env email_id) pc md = (fs', None)"
    and b: "dl_body r = pc_body_text pc" and a: "dl_attachments r = pc_attachments pc"
    by blast
  have ne: "extracted_pairs (pc_attachments pc) \<noteq> []" using assms(3) a by simp
  have flag: extract_attachment_text using p ne by (rule parse_flag)
  have enc: "dl_body r = encode (pure_body_text env (im_body msg)) (extracted_pairs (dl_attachments r))"
    using parse_body_text [OF p] a b by simp
  have diff: "dl_body r \<noteq> py_strip (pure_body_text env (im_body msg))"
    and mark: "py_in marker_token (dl_body r)"
    using encode_with_attachments [OF assms(3), of "pure_body_text env (im_body msg)"] enc
    by simp_all
  from diff have "pc_body_text pc \<noteq> []"
    using mark b by (auto simp: py_in_def marker_token_def)
  from write_artifacts_body [OF w this] have artifact:
    "\<exists>bs. utf8_encode env (dl_body r) = Inr bs
          \<and> fs' (path_join (email_folder_path env email_id) (ascii ''body.txt'')) = Some (File bs)"
    using b by simp
  have dec: "\<not> py_in marker_token (pure_body_text env (im_body msg))
            \<and> (\<forall>a\<in>set (extracted_pairs (dl_attachments r)). wf_attachment a)
          \<longrightarrow> fst (decode (dl_body r)) = py_strip (pure_body_text env (im_body msg))"
    using decode_encode [of "pure_body_text env (im_body msg)" "extracted_pairs (dl_attachments r)"] enc
    by simp
  show ?thesis using flag enc diff mark artifact dec by blast
qed

lemma example_download:
  "\<exists>fs' r. download_email_full example_text_env (Some example_fetch) example_downloads
              (ascii ''7'') True = Some (fs', Some r)
     \<and> extracted_pairs (dl_attachments r) = [(ascii ''a.txt'', ascii ''World'')]
     \<and> dl_body r = ascii ''Hello'' @ [10, 10] @ marker_token @ ascii '' a.txt ==='' @ [10]
                     @ ascii ''World''"
  by (simp add: download_email_full_def example_fetch_def example_message_def
      example_text_env_def parse_email_body_and_attachments_def handle_part_def
      is_attachment_part_def payload_present_def initial_state_def finish_parse_def
      save_attachment_def free_path_free file_eval write_artifacts_def write_text_def
      write_json_def extracted_pairs_def parser_eval extract_eval py_eval Let_def)

lemma example_pure_body:
  "pure_body_text example_text_env (im_body example_message) = ascii ''Hello''"
  by (simp add: pure_body_text_def example_message_def example_text_env_def
      body_or_html_text_def plain_text_of_def html_of_def is_attachment_part_def
      payload_present_def parser_eval py_eval)

text \<open>The theorem in the example, for message 7.\<close>

theorem body_field_is_combined_text_witness:
  "\<exists>fs' r. download_email_full example_text_env (Some example_fetch) example_downloads
              (ascii ''7'') True = Some (fs', Some r)
     \<and> extracted_pairs (dl_attachments r) = [(ascii ''a.txt'', ascii ''World'')]
     \<and> dl_body r = encode (ascii ''Hello'') [(ascii ''a.txt'', ascii ''World'')]
     \<and> dl_body r = ascii ''Hello'' @ [10, 10] @ marker_token @ ascii '' a.txt ==='' @ [10]
                     @ ascii ''World''
     \<and> py_in marker_token (dl_body r)
     \<and> fs' (ascii ''downloads/email_7/body.txt'') = Some (File (dl_body r))
     \<and> fst (decode (dl_body r)) = ascii ''Hello''"
proof -
  obtain fs' r where d: "download_email_full example_text_env (Some example_fetch)
        example_downloads (ascii ''7'') True = Some (fs', Some r)"
    and p: "extracted_pairs (dl_attachments r) = [(ascii ''a.txt'', ascii ''World'')]"
    and b: "dl_body r = ascii ''Hello'' @ [10, 10] @ marker_token @ ascii '' a.txt ==='' @ [10]
                     @ ascii ''World''"
    using example_download by blast
  have f: "example_fetch (ascii ''7'') = Inr (ascii ''OK'', example_message)"
    by (simp add: example_fetch_def)
  have ne: "extracted_pairs (dl_attachments r) \<noteq> []" using p by simp
  have u: "utf8_encode example_text_env = Inr"
    by (simp add: example_text_env_def example_parser_env_def fun_eq_iff)
  have j: "path_join (email_folder_path example_text_env (ascii ''7'')) (ascii ''body.txt'')
           = ascii ''downloads/email_7/body.txt''"
    by (simp add: example_text_env_def parser_eval ascii_def)
  have nm: "\<not> py_in marker_token (ascii ''Hello'')" by (simp add: py_eval)
  have wf: "wf_attachment (ascii ''a.txt'', ascii ''World'')"
    by (simp add: wf_attachment_def py_eval)
  have st: "py_strip (ascii ''Hello'') = ascii ''Hello''" by (simp add: py_eval)
  note t = body_field_is_combined_text [OF d f ne, unfolded example_pure_body p u j st]
  from t have e: "dl_body r = encode (ascii ''Hello'') [(ascii ''a.txt'', ascii ''World'')]"
    by blast
  from t have m: "py_in marker_token (dl_body r)" by blast
  from t have a: "fs' (ascii ''downloads/email_7/body.txt'') = Some (File (dl_body r))"
    by auto
  have "\<forall>a\<in>set [(ascii ''a.txt'', ascii ''World'')]. wf_attachment a" using wf by simp
  with t nm have c: "fst (decode (dl_body r)) = ascii ''Hello''" by blast
  from d p e b m a c show ?thesis by blast
qed

section \<open>Separating what the parser combined\<close>
















text \<open>
  A message read from its folder: the extracted texts come back stripped, and the
  filenames are those of the directory listing, in its order.
\<close>

lemma example_cached_separately:
  "\<exists>r. get_email_body_and_attachments_separately example_text_env example_cached_viewer None
          example_cached_folder (ascii ''9'') = Some (example_cached_folder, Inr r)
     \<and> se_body_text r = ascii ''Hello''
     \<and> map (\<lambda>s. (sa_index s, sa_filename s, sa_extracted_text s)) (se_attachments r)
         = [(1, ascii ''b.txt'', ascii ''one''), (2, ascii ''a.txt'', ascii ''two'')]"
  by (simp add: get_email_body_and_attachments_separately_def view_email_content_def
      read_downloaded_def read_text_utf8_def st_size_def separate_viewed_def get_or_def
      dict_update_def segmented_def example_cached_viewer_def example_cached_folder_def
      example_text_env_def file_eval parser_eval extract_eval py_eval Let_def)

end
